theory Spec2Isabelle
  imports Main "HOL-Library.Sublist"
begin

section \<open>Values, exceptions and the string built-ins\<close>

text \<open>
  The notebook \<^verbatim>\<open>data_processing_notebook_ODD.ipynb\<close> defines four functions:
  \<^verbatim>\<open>load_odd_data\<close>, \<^verbatim>\<open>clean_party_name\<close>, \<^verbatim>\<open>get_zone\<close> and
  \<^verbatim>\<open>process_odd_data\<close>. Each is embedded below under its own name.

  A Python \<^verbatim>\<open>str\<close> is a \<^typ>\<open>string\<close>: one \<^typ>\<open>char\<close> per code point, so the
  model covers the code points below 256 (Latin-1, which holds the Spanish text of the
  data). The delimiters of \<^verbatim>\<open>clean_party_name\<close> are ASCII, so for that function the
  same model also reads as the UTF-8 bytes of any string. A raised exception is the
  \<open>Inl\<close> branch of a sum.
\<close>

datatype py_error =
  ValueError | IndexError | AttributeError | KeyError | FileNotFoundError | JSONDecodeError

text \<open>
  A cell of a data frame as the notebook's functions receive it: a string, an integer, a
  finite float, or the float \<^verbatim>\<open>nan\<close> that pandas stores for an empty cell. A finite
  float is given by the text that Python prints for it, which determines it.
\<close>

datatype cell = PyStr string | PyInt int | PyFloat string | PyNaN

text \<open>
  \<^verbatim>\<open>s.split(sep)\<close>: scan from the left, cut at each occurrence of \<open>sep\<close> and resume
  after it. \<open>cur\<close> is the piece being collected. An empty separator raises
  \<^verbatim>\<open>ValueError\<close>.
\<close>

function split_from :: "string \<Rightarrow> string \<Rightarrow> string \<Rightarrow> string list" where
  "split_from sep cur [] = [cur]"
| "split_from sep cur (c # cs) =
     (if sep \<noteq> [] \<and> prefix sep (c # cs)
      then cur # split_from sep [] (drop (length sep) (c # cs))
      else split_from sep (cur @ [c]) cs)"
  by pat_completeness auto
termination
  by (relation "measure (\<lambda>(sep, cur, s). length s)") auto

definition py_split :: "string \<Rightarrow> string \<Rightarrow> py_error + string list" where
  "py_split s sep = (if sep = [] then Inl ValueError else Inr (split_from sep [] s))"

text \<open>\<^verbatim>\<open>xs[0]\<close>: \<^verbatim>\<open>IndexError\<close> on the empty list.\<close>

definition py_first :: "'a list \<Rightarrow> py_error + 'a" where
  "py_first xs = (case xs of [] \<Rightarrow> Inl IndexError | x # _ \<Rightarrow> Inr x)"

text \<open>
  \<^verbatim>\<open>s.replace(old, new)\<close>: one pass from the left over the non-overlapping
  occurrences of \<open>old\<close>. With an empty \<open>old\<close> Python puts \<open>new\<close> before every
  character and at the end.
\<close>

function py_replace :: "string \<Rightarrow> string \<Rightarrow> string \<Rightarrow> string" where
  "py_replace [] old new = (if old = [] then new else [])"
| "py_replace (c # cs) old new =
     (if old \<noteq> [] \<and> prefix old (c # cs)
      then new @ py_replace (drop (length old) (c # cs)) old new
      else if old = [] then new @ c # py_replace cs old new
      else c # py_replace cs old new)"
  by pat_completeness auto
termination
  by (relation "measure (\<lambda>(s, old, new). length s)") auto

text \<open>
  \<^verbatim>\<open>s.split()\<close> with no argument cuts at runs of whitespace and drops empty pieces.
  \<open>whitespace\<close> lists the code points below 256 for which \<^verbatim>\<open>str.isspace\<close> holds.
\<close>

definition whitespace :: "char list" where
  "whitespace =
     [CHR 0x09, CHR 0x0A, CHR 0x0B, CHR 0x0C, CHR 0x0D, CHR 0x1C, CHR 0x1D, CHR 0x1E,
      CHR 0x1F, CHR 0x20, CHR 0x85, CHR 0xA0]"

definition is_space :: "char \<Rightarrow> bool" where
  "is_space c = (c \<in> set whitespace)"

fun split_ws_from :: "string \<Rightarrow> string \<Rightarrow> string list" where
  "split_ws_from cur [] = (if cur = [] then [] else [cur])"
| "split_ws_from cur (c # cs) =
     (if is_space c
      then (if cur = [] then split_ws_from [] cs else cur # split_ws_from [] cs)
      else split_ws_from (cur @ [c]) cs)"

definition py_split_ws :: "string \<Rightarrow> string list" where
  "py_split_ws s = split_ws_from [] s"

text \<open>\<^verbatim>\<open>sep.join(xs)\<close>.\<close>

fun py_join :: "string \<Rightarrow> string list \<Rightarrow> string" where
  "py_join sep [] = []"
| "py_join sep [x] = x"
| "py_join sep (x # y # ys) = x @ sep @ py_join sep (y # ys)"

text \<open>
  \<^verbatim>\<open>str(v)\<close>: a string is itself, an integer is its decimal numeral with a minus sign
  when negative, a finite float is the text it is given by, and the float \<^verbatim>\<open>nan\<close> prints
  as \<open>nan\<close>.
\<close>

definition digit_char :: "nat \<Rightarrow> char" where
  "digit_char d = ''0123456789'' ! d"

function dec_nat :: "nat \<Rightarrow> string" where
  "dec_nat n =
     (if n < 10 then [digit_char n] else dec_nat (n div 10) @ [digit_char (n mod 10)])"
  by pat_completeness auto
termination
  by (relation "measure id") auto

declare dec_nat.simps [simp del]

definition py_str :: "cell \<Rightarrow> string" where
  "py_str v =
     (case v of
        PyStr s \<Rightarrow> s
      | PyInt i \<Rightarrow> (if i < 0 then CHR ''-'' # dec_nat (nat (- i)) else dec_nat (nat i))
      | PyFloat s \<Rightarrow> s
      | PyNaN \<Rightarrow> ''nan'')"

text \<open>
  \<^verbatim>\<open>str(float(i))\<close> for an integer \<open>i\<close>, which is what an integer cell prints as once
  pandas has stored its column as floats. \<open>nearest_double n\<close> is the double nearest to
  \<open>n\<close>, ties going to the even mantissa of 53 bits. Below \<open>10 ^ 16\<close> Python prints all
  the digits and \<open>.0\<close>; from there on it prints, in scientific notation, the shortest
  digits that read back as the same double (\<open>shortest_decimal\<close>).
\<close>

function bit_length :: "nat \<Rightarrow> nat" where
  "bit_length n = (if n = 0 then 0 else Suc (bit_length (n div 2)))"
  by pat_completeness auto
termination
  by (relation "measure id") auto

declare bit_length.simps [simp del]

definition nearest_double :: "nat \<Rightarrow> nat" where
  "nearest_double n =
     (if n < 2 ^ 53 then n
      else (let e = bit_length n - 53; q = n div 2 ^ e; r = n mod 2 ^ e
            in (if 2 ^ e < 2 * r \<or> (2 * r = 2 ^ e \<and> odd q) then q + 1 else q) * 2 ^ e))"

definition reads_back :: "nat \<Rightarrow> nat \<Rightarrow> nat list" where
  "reads_back x s =
     filter (\<lambda>v. nearest_double v = x) [(x div s) * s, (x div s) * s + s]"

definition shortest_decimal :: "nat \<Rightarrow> nat" where
  "shortest_decimal x =
     (case find (\<lambda>s. reads_back x s \<noteq> []) (map (\<lambda>j. 10 ^ j) (rev [0..<length (dec_nat x)])) of
        None \<Rightarrow> x
      | Some s \<Rightarrow>
          (case reads_back x s of
             [lo, hi] \<Rightarrow> (if x - lo \<le> hi - x then lo else hi)
           | v # _ \<Rightarrow> v
           | [] \<Rightarrow> x))"

definition scientific :: "nat \<Rightarrow> string" where
  "scientific v =
     (let ds = rev (dropWhile (\<lambda>c. c = CHR ''0'') (rev (dec_nat v)))
      in hd ds # (if tl ds = [] then [] else CHR ''.'' # tl ds)
         @ ''e+'' @ dec_nat (length (dec_nat v) - 1))"

definition float_str :: "int \<Rightarrow> string" where
  "float_str i =
     (let x = nearest_double (nat \<bar>i\<bar>)
      in (if i < 0 then ''-'' else '''')
         @ (if x < 10 ^ 16 then dec_nat x @ ''.0'' else scientific (shortest_decimal x)))"

text \<open>
  \<^verbatim>\<open>s.lower()\<close> on code points below 256: the ASCII capitals and the accented capitals
  of Latin-1 move up by 32, everything else stays.
\<close>

definition py_lower_char :: "char \<Rightarrow> char" where
  "py_lower_char c =
     (let n = (of_char c :: nat)
      in if (65 \<le> n \<and> n \<le> 90) \<or> (192 \<le> n \<and> n \<le> 214) \<or> (216 \<le> n \<and> n \<le> 222)
         then char_of (n + 32) else c)"

definition py_lower :: "string \<Rightarrow> string" where
  "py_lower s = map py_lower_char s"

text \<open>\<^verbatim>\<open>d.get(k, default)\<close> on a dictionary.\<close>

definition dict_get :: "('k \<rightharpoonup> 'v) \<Rightarrow> 'k \<Rightarrow> 'v \<Rightarrow> 'v" where
  "dict_get d k dflt = (case d k of None \<Rightarrow> dflt | Some v \<Rightarrow> v)"

text \<open>
  Iterating a Python \<^verbatim>\<open>set\<close> built from a list visits each distinct element once, in
  an order the language leaves open. The interpreter's choice is a function \<open>iter\<close> from
  the list the set is built from to the order of the visit; \<open>iteration_order iter\<close> says
  that it is such an order.
\<close>

definition iteration_order :: "('a list \<Rightarrow> 'a list) \<Rightarrow> bool" where
  "iteration_order iter = (\<forall>xs. distinct (iter xs) \<and> set (iter xs) = set xs)"

section \<open>Data frames\<close>

text \<open>
  A data frame is its list of column names and its rows in order; a row maps each column
  name to the cell it holds. Column names are distinct within a frame as it is read
  (\<^verbatim>\<open>read_excel\<close> renames repeated headers); only the renaming in the cleaning stage
  can leave two columns of one name, in a frame without rows. \<open>cell_of\<close> reads a cell,
  \<^verbatim>\<open>nan\<close> where the row holds none.
\<close>

type_synonym row = "string \<rightharpoonup> cell"

record table =
  columns :: "string list"
  rows :: "row list"

definition cell_of :: "row \<Rightarrow> string \<Rightarrow> cell" where
  "cell_of r c = (case r c of None \<Rightarrow> PyNaN | Some v \<Rightarrow> v)"

text \<open>
  \<^verbatim>\<open>pd.concat(all_data, ignore_index=True)\<close>: the columns are those of all frames in the
  order in which they first appear, the rows are the rows of the frames one frame after
  the other, and a row has \<^verbatim>\<open>nan\<close> in the columns its own frame does not have.

  pandas stores each column of the result under one type. When an integer column meets
  \<^verbatim>\<open>nan\<close> or floats (a frame without the column, or with the column empty or of
  floats), the column of the result is of floats and every integer in it becomes the
  float of the same value: \<open>7\<close> becomes \<open>7.0\<close>. Which columns these are is decided
  inside pandas; the decision is the parameter \<open>float_col\<close>, from the frames and the
  column name. Only the integers of a 64-bit column can be stored so; every other cell
  keeps its value.
\<close>

definition first_seen :: "'a list \<Rightarrow> 'a list" where
  "first_seen xs = foldl (\<lambda>acc x. if x \<in> set acc then acc else acc @ [x]) [] xs"

definition store :: "bool \<Rightarrow> cell \<Rightarrow> cell" where
  "store as_float v =
     (case v of
        PyInt i \<Rightarrow> (if as_float \<and> \<bar>i\<bar> < 2 ^ 64 then PyFloat (float_str i) else PyInt i)
      | _ \<Rightarrow> v)"

definition pd_concat :: "(table list \<Rightarrow> string \<Rightarrow> bool) \<Rightarrow> table list \<Rightarrow> table" where
  "pd_concat float_col dfs =
     (let cols = first_seen (concat (map columns dfs))
      in \<lparr>columns = cols,
          rows = concat (map (\<lambda>df. map (\<lambda>r c.
                    if c \<in> set cols
                    then Some (if c \<in> set (columns df)
                               then store (float_col dfs c) (cell_of r c) else PyNaN)
                    else None) (rows df)) dfs)\<rparr>)"

text \<open>
  \<^verbatim>\<open>df[df['DEPTO'] == department].copy()\<close>: \<^verbatim>\<open>KeyError\<close> without the column; a cell
  equals the department only when it is that very string.
\<close>

definition filter_department :: "table \<Rightarrow> string \<Rightarrow> py_error + table" where
  "filter_department combined_data department =
     (if ''DEPTO'' \<in> set (columns combined_data)
      then Inr (combined_data\<lparr>rows :=
                  filter (\<lambda>r. r ''DEPTO'' = Some (PyStr department)) (rows combined_data)\<rparr>)
      else Inl KeyError)"

text \<open>
  \<^verbatim>\<open>df.rename(columns={old: new}, inplace=True)\<close>: nothing happens when \<open>old\<close> is not a
  column.
\<close>

definition rename_column :: "string \<Rightarrow> string \<Rightarrow> table \<Rightarrow> table" where
  "rename_column old new df =
     (if old \<in> set (columns df)
      then \<lparr>columns = map (\<lambda>c. if c = old then new else c) (columns df),
            rows = map (\<lambda>r. (r(old := None))(new := r old)) (rows df)\<rparr>
      else df)"

text \<open>
  \<^verbatim>\<open>df[c] = df[c].apply(f)\<close>: \<open>f\<close> runs on the cells of column \<open>c\<close> from the first row
  on, and the first exception it raises ends the statement with no cell assigned.
\<close>

fun apply_rows :: "(cell \<Rightarrow> py_error + cell) \<Rightarrow> string \<Rightarrow> row list \<Rightarrow> py_error + row list" where
  "apply_rows f c [] = Inr []"
| "apply_rows f c (r # rs) =
     (case f (cell_of r c) of
        Inl e \<Rightarrow> Inl e
      | Inr v \<Rightarrow>
          (case apply_rows f c rs of
             Inl e \<Rightarrow> Inl e
           | Inr rs' \<Rightarrow> Inr (r(c \<mapsto> v) # rs')))"

text \<open>\<^verbatim>\<open>df.drop(columns=[c])\<close>.\<close>

definition drop_column :: "string \<Rightarrow> table \<Rightarrow> table" where
  "drop_column c df =
     \<lparr>columns = filter (\<lambda>x. x \<noteq> c) (columns df), rows = map (\<lambda>r. r(c := None)) (rows df)\<rparr>"

text \<open>
  \<^verbatim>\<open>df[c] = values\<close>, one value per row computed by \<open>g\<close> from the row: an existing
  column is overwritten, a new one goes last.
\<close>

definition assign_column :: "string \<Rightarrow> (row \<Rightarrow> cell) \<Rightarrow> table \<Rightarrow> table" where
  "assign_column c g df =
     \<lparr>columns = (if c \<in> set (columns df) then columns df else columns df @ [c]),
      rows = map (\<lambda>r. r(c \<mapsto> g r)) (rows df)\<rparr>"

section \<open>The world outside the notebook\<close>

text \<open>
  What the notebook reads from its surroundings:
  \<^item> \<open>listdir\<close>: \<^verbatim>\<open>os.listdir(folder)\<close>, the names in the order of enumeration, or the
    exception it raises;
  \<^item> \<open>read_excel\<close>: \<^verbatim>\<open>pd.read_excel(path, header=8, usecols='A:H')\<close>, the frame read
    or the text of the exception raised;
  \<^item> \<open>load_json\<close>: \<^verbatim>\<open>open\<close> followed by \<^verbatim>\<open>json.load\<close> on the mapping file, a flat
    object from series code to zone name, or the exception raised when the file is
    missing or unreadable;
  \<^item> \<open>iterate_set\<close>: the order in which this interpreter iterates a set;
  \<^item> \<open>float_column\<close>: whether pandas stores a column of the concatenation of the given
    frames as floats.

  A path \<^verbatim>\<open>os.path.join(directory, name)\<close> is the pair of its two parts. What is written
  with \<^verbatim>\<open>to_csv\<close> is recorded as the frame itself; the output directories exist (the
  notebook's last cell creates them), so writing succeeds.
\<close>

type_synonym path = "string \<times> string"

record world =
  listdir :: "string \<Rightarrow> py_error + string list"
  read_excel :: "path \<Rightarrow> string + table"
  load_json :: "path \<Rightarrow> py_error + (string \<rightharpoonup> string)"
  iterate_set :: "string list \<Rightarrow> string list"
  float_column :: "table list \<Rightarrow> string \<Rightarrow> bool"

text \<open>What \<^verbatim>\<open>print\<close> shows, line by line.\<close>

datatype message =
    Error_reading string string
  | No_valid_data
  | Processed string
  | Head table
  | Saved_to
  | Saved_path path

text \<open>
  The result of a run of \<^verbatim>\<open>process_odd_data\<close>: whether it returned or raised, the files
  written in order, and the lines printed.
\<close>

datatype outcome = Returned | Raised py_error

record run =
  outcome :: outcome
  written :: "(path \<times> table) list"
  printed :: "message list"

section \<open>Loading\<close>

text \<open>
  \<^verbatim>\<open>
  def load_odd_data(odd_folder):
      all_data = []
      for file_name in os.listdir(odd_folder):
          if file_name.endswith('.xlsx'):
              file_path = os.path.join(odd_folder, file_name)
              try:
                  df = pd.read_excel(file_path, header=8, usecols='A:H')
                  all_data.append(df)
              except Exception as e:
                  print(f"Error reading file {file_name}: {e}")
      return pd.concat(all_data, ignore_index=True) if all_data else None
  \<close>
  \<open>load_files\<close> is the loop, with \<open>all_data\<close> and the lines printed so far as its state.
\<close>

fun load_files ::
  "world \<Rightarrow> string \<Rightarrow> string list \<Rightarrow> table list \<Rightarrow> message list \<Rightarrow> table list \<times> message list"
where
  "load_files w odd_folder [] all_data out = (all_data, out)"
| "load_files w odd_folder (file_name # names) all_data out =
     (if suffix ''.xlsx'' file_name
      then (case read_excel w (odd_folder, file_name) of
              Inr df \<Rightarrow> load_files w odd_folder names (all_data @ [df]) out
            | Inl e \<Rightarrow>
                load_files w odd_folder names all_data (out @ [Error_reading file_name e]))
      else load_files w odd_folder names all_data out)"

definition load_odd_data :: "world \<Rightarrow> string \<Rightarrow> (py_error + table option) \<times> message list" where
  "load_odd_data w odd_folder =
     (case listdir w odd_folder of
        Inl e \<Rightarrow> (Inl e, [])
      | Inr names \<Rightarrow>
          (case load_files w odd_folder names [] [] of
             (all_data, out) \<Rightarrow>
               (Inr (if all_data \<noteq> [] then Some (pd_concat (float_column w) all_data)
                     else None), out)))"

section \<open>Party-name normalization\<close>

text \<open>
  \<^verbatim>\<open>
  def clean_party_name(value):
      party = value.split('_-_')[0]
      party = party.replace('_', ' ')
      return party.replace(' O.D.D.', '')
  \<close>
  A value that is not a string has no \<^verbatim>\<open>split\<close> attribute.
\<close>

definition clean_party_name :: "cell \<Rightarrow> py_error + string" where
  "clean_party_name v =
     (case v of
        PyStr s \<Rightarrow>
          (case py_split s ''_-_'' of
             Inl e \<Rightarrow> Inl e
           | Inr parts \<Rightarrow>
               (case py_first parts of
                  Inl e \<Rightarrow> Inl e
                | Inr party \<Rightarrow>
                    Inr (py_replace (py_replace party ''_'' '' '') '' O.D.D.'' '''')))
      | _ \<Rightarrow> Inl AttributeError)"

section \<open>Zone resolution\<close>

text \<open>
  \<^verbatim>\<open>
  def get_zone(serie, series_to_zona):
      series = str(serie).split()
      zones = [series_to_zona.get(s, 'Unknown') for s in series]
      return ' '.join(set(zones))
  \<close>
  \<open>iter\<close> is the order in which \<^verbatim>\<open>set(zones)\<close> is iterated.
\<close>

definition get_zone ::
  "(string list \<Rightarrow> string list) \<Rightarrow> cell \<Rightarrow> (string \<rightharpoonup> string) \<Rightarrow> string" where
  "get_zone iter serie series_to_zona =
     (let series = py_split_ws (py_str serie);
          zones = map (\<lambda>s. dict_get series_to_zona s ''Unknown'') series
      in py_join '' '' (iter zones))"

section \<open>The pipeline\<close>

text \<open>
  The cleaning statements of \<^verbatim>\<open>process_odd_data\<close>:
  \<^verbatim>\<open>
  department_odd_data.rename(columns={'CONVOCATORIA': 'PARTIDO'}, inplace=True)
  department_odd_data['PARTIDO'] = department_odd_data['PARTIDO'].apply(clean_party_name)
  \<close>
  Without a \<open>PARTIDO\<close> column after the renaming the selection raises \<^verbatim>\<open>KeyError\<close>.
  When the frame had both columns the renaming leaves two columns named \<open>PARTIDO\<close>; the
  selection is then a frame, \<^verbatim>\<open>apply\<close> hands whole columns to \<^verbatim>\<open>clean_party_name\<close>,
  and those have no \<^verbatim>\<open>split\<close>. On a frame without rows \<^verbatim>\<open>apply\<close> calls nothing and
  the frame goes on as renamed, with its two columns of that name.
\<close>

definition clean_stage :: "table \<Rightarrow> py_error + table" where
  "clean_stage df =
     (if ''CONVOCATORIA'' \<in> set (columns df) \<and> ''PARTIDO'' \<in> set (columns df)
      then (if rows df = [] then Inr (rename_column ''CONVOCATORIA'' ''PARTIDO'' df)
            else Inl AttributeError)
      else
        (let renamed = rename_column ''CONVOCATORIA'' ''PARTIDO'' df
         in if ''PARTIDO'' \<notin> set (columns renamed) then Inl KeyError
            else
              (case apply_rows (\<lambda>v. map_sum id PyStr (clean_party_name v)) ''PARTIDO''
                      (rows renamed) of
                 Inl e \<Rightarrow> Inl e
               | Inr rs \<Rightarrow> Inr (renamed\<lparr>rows := rs\<rparr>))))"

text \<open>
  \<^verbatim>\<open>
  department_odd_data['ZONA'] = department_odd_data['SERIES'].apply(
      lambda x: get_zone(x, series_to_zona))
  \<close>
\<close>

definition zone_stage ::
  "(string list \<Rightarrow> string list) \<Rightarrow> (string \<rightharpoonup> string) \<Rightarrow> table \<Rightarrow> py_error + table" where
  "zone_stage iter series_to_zona df =
     (if ''SERIES'' \<in> set (columns df)
      then Inr (assign_column ''ZONA''
                  (\<lambda>r. PyStr (get_zone iter (cell_of r ''SERIES'') series_to_zona)) df)
      else Inl KeyError)"

text \<open>The names of the files, from the lower-cased department name.\<close>

definition filtered_path :: "string \<Rightarrow> string \<Rightarrow> path" where
  "filtered_path output_dir department = (output_dir, py_lower department @ ''_odd_filtered.csv'')"

definition cleaned_path :: "string \<Rightarrow> string \<Rightarrow> path" where
  "cleaned_path output_dir department = (output_dir, py_lower department @ ''_odd_cleaned.csv'')"

definition no_acto_path :: "string \<Rightarrow> string \<Rightarrow> path" where
  "no_acto_path output_dir department = (output_dir, py_lower department @ ''_odd_no_acto.csv'')"

definition final_path :: "string \<Rightarrow> string \<Rightarrow> path" where
  "final_path final_dir department = (final_dir, py_lower department @ ''_odd_final.csv'')"

definition mapping_path :: "string \<Rightarrow> string \<Rightarrow> path" where
  "mapping_path mapping_dir department = (mapping_dir, ''mapping_'' @ py_lower department @ ''.json'')"

text \<open>The lines printed at the end of a complete run.\<close>

definition report :: "table \<Rightarrow> table \<Rightarrow> string \<Rightarrow> string \<Rightarrow> string \<Rightarrow> message list" where
  "report combined_data final department output_dir final_dir =
     [Processed department, Head (final\<lparr>rows := take 5 (rows final)\<rparr>), Saved_to,
      Saved_path (filtered_path output_dir department),
      Saved_path (cleaned_path output_dir department)]
     @ (if ''ACTO'' \<in> set (columns combined_data)
        then [Saved_path (no_acto_path output_dir department)] else [])
     @ [Saved_path (final_path final_dir department)]"

text \<open>
  \<^verbatim>\<open>process_odd_data(department, odd_folder, output_dir, mapping_dir, final_dir)\<close>,
  statement by statement: load, stop with a message when nothing was loaded, filter and
  save, clean and save, drop \<open>ACTO\<close> and save when the column is there, open the mapping
  file, add \<open>ZONA\<close>, save, print the report. An exception ends the run where it is raised;
  what was written before stays written.
\<close>

definition process_odd_data ::
  "world \<Rightarrow> string \<Rightarrow> string \<Rightarrow> string \<Rightarrow> string \<Rightarrow> string \<Rightarrow> run" where
  "process_odd_data w department odd_folder output_dir mapping_dir final_dir =
     (case load_odd_data w odd_folder of
        (Inl e, out) \<Rightarrow> \<lparr>outcome = Raised e, written = [], printed = out\<rparr>
      | (Inr None, out) \<Rightarrow>
          \<lparr>outcome = Returned, written = [], printed = out @ [No_valid_data]\<rparr>
      | (Inr (Some combined_data), out) \<Rightarrow>
          (case filter_department combined_data department of
             Inl e \<Rightarrow> \<lparr>outcome = Raised e, written = [], printed = out\<rparr>
           | Inr filtered \<Rightarrow>
               (let w1 = [(filtered_path output_dir department, filtered)]
                in case clean_stage filtered of
                     Inl e \<Rightarrow> \<lparr>outcome = Raised e, written = w1, printed = out\<rparr>
                   | Inr cleaned \<Rightarrow>
                       (let w2 = w1 @ [(cleaned_path output_dir department, cleaned)];
                            no_acto = (if ''ACTO'' \<in> set (columns cleaned)
                                       then drop_column ''ACTO'' cleaned else cleaned);
                            w3 = (if ''ACTO'' \<in> set (columns cleaned)
                                  then w2 @ [(no_acto_path output_dir department, no_acto)]
                                  else w2)
                        in case load_json w (mapping_path mapping_dir department) of
                             Inl e \<Rightarrow> \<lparr>outcome = Raised e, written = w3, printed = out\<rparr>
                           | Inr series_to_zona \<Rightarrow>
                               (case zone_stage (iterate_set w) series_to_zona no_acto of
                                  Inl e \<Rightarrow> \<lparr>outcome = Raised e, written = w3, printed = out\<rparr>
                                | Inr final \<Rightarrow>
                                    \<lparr>outcome = Returned,
                                     written = w3 @ [(final_path final_dir department, final)],
                                     printed = out @ report combined_data final department
                                                       output_dir final_dir\<rparr>)))))"

section \<open>The specification's reading of the three normalization steps\<close>

text \<open>
  These definitions follow the words of the specification, not the code: positions of
  occurrences are named explicitly, and nothing is scanned.
  \<^item> \<open>occurs_at pat s i\<close>: \<open>pat\<close> occurs in \<open>s\<close> starting at position \<open>i\<close>;
  \<^item> \<open>portion_before_first pat s\<close>: what stands before the first occurrence of \<open>pat\<close>,
    the whole of \<open>s\<close> when there is none;
  \<^item> \<open>underscores_to_spaces\<close>: every underscore becomes a space;
  \<^item> \<open>remove_every_occurrence pat s\<close>: the characters of \<open>s\<close> that lie inside no
    occurrence of \<open>pat\<close>, in order.
\<close>

definition occurs_at :: "'a list \<Rightarrow> 'a list \<Rightarrow> nat \<Rightarrow> bool" where
  "occurs_at pat s i = prefix pat (drop i s)"

definition first_occurrence :: "'a list \<Rightarrow> 'a list \<Rightarrow> nat option" where
  "first_occurrence pat s = find (occurs_at pat s) [0..<Suc (length s)]"

definition portion_before_first :: "'a list \<Rightarrow> 'a list \<Rightarrow> 'a list" where
  "portion_before_first pat s =
     (case first_occurrence pat s of None \<Rightarrow> s | Some i \<Rightarrow> take i s)"

definition underscores_to_spaces :: "string \<Rightarrow> string" where
  "underscores_to_spaces s = map (\<lambda>c. if c = CHR ''_'' then CHR '' '' else c) s"

definition inside_occurrence :: "'a list \<Rightarrow> 'a list \<Rightarrow> nat \<Rightarrow> bool" where
  "inside_occurrence pat s j = list_ex (occurs_at pat s) [Suc j - length pat..<Suc j]"

definition remove_every_occurrence :: "'a list \<Rightarrow> 'a list \<Rightarrow> 'a list" where
  "remove_every_occurrence pat s =
     map (nth s) (filter (\<lambda>j. \<not> inside_occurrence pat s j) [0..<length s])"

definition normalize_spec :: "string \<Rightarrow> string" where
  "normalize_spec s =
     remove_every_occurrence '' O.D.D.''
       (underscores_to_spaces (portion_before_first ''_-_'' s))"

section \<open>Names used in the statements about the pipeline\<close>

text \<open>
  In the words of the specification: the frames of the files that parse, in the order in
  which the folder lists the files; the reports of the files that do not; and the values
  of one field down the rows of a frame.
\<close>

definition parsed_frames :: "world \<Rightarrow> string \<Rightarrow> string list \<Rightarrow> table list" where
  "parsed_frames w folder names =
     concat (map (\<lambda>name. case read_excel w (folder, name) of Inr df \<Rightarrow> [df] | Inl e \<Rightarrow> [])
               (filter (suffix ''.xlsx'') names))"

definition parse_failures :: "world \<Rightarrow> string \<Rightarrow> string list \<Rightarrow> message list" where
  "parse_failures w folder names =
     concat (map (\<lambda>name. case read_excel w (folder, name) of
                            Inr df \<Rightarrow> [] | Inl e \<Rightarrow> [Error_reading name e])
               (filter (suffix ''.xlsx'') names))"

definition column_values :: "string \<Rightarrow> table \<Rightarrow> cell option list" where
  "column_values c df = map (\<lambda>r. r c) (rows df)"

text \<open>
  The rows of a list of frames in the order of the frames and, within a frame, in the
  order of its rows, each with the frame it comes from.
\<close>

definition row_sources :: "table list \<Rightarrow> (table \<times> row) list" where
  "row_sources dfs = concat (map (\<lambda>df. map (\<lambda>r. (df, r)) (rows df)) dfs)"

text \<open>
  A row \<open>r'\<close> of a concatenation with columns \<open>cols\<close> carries the row \<open>r\<close> of the frame
  \<open>df\<close>: in each column of \<open>df\<close> it holds the cell of \<open>r\<close>, as the float of the same
  value when that cell is an integer of 64 bits and the column is one of floats
  (\<open>as_float\<close>); in the other columns of the concatenation it holds \<^verbatim>\<open>nan\<close>; and it has
  no further column.
\<close>

definition carries :: "(string \<Rightarrow> bool) \<Rightarrow> string list \<Rightarrow> table \<times> row \<Rightarrow> row \<Rightarrow> bool" where
  "carries as_float cols src r' =
     (\<forall>c. r' c =
        (if c \<in> set (columns (fst src))
         then (case cell_of (snd src) c of
                 PyInt i \<Rightarrow> Some (if as_float c \<and> \<bar>i\<bar> < 2 ^ 64
                                   then PyFloat (float_str i) else PyInt i)
               | v \<Rightarrow> Some v)
         else if c \<in> set cols then Some PyNaN else None))"

text \<open>
  A small world to run the pipeline in: a folder \<open>raw\<close> with two sheets that parse, one
  that does not and a text file; a folder \<open>broken\<close> with that unreadable sheet and the
  text file only; a folder \<open>empty\<close>; a mapping file for Canelones and none for any
  other department. The sheets have the eight columns of the real ones. Every column
  holds strings in both sheets or integers in both, so pandas stores no column of their
  concatenation as floats.
\<close>

definition sheet_columns :: "string list" where
  "sheet_columns =
     [''ACTO'', ''CONVOCATORIA'', ''DEPTO'', ''CIRCUITO'', ''SERIES'', ''ESCRUTINIO'', ''HOJA'',
      ''CNT_VOTOS'']"

definition sheet_row :: "string \<Rightarrow> string \<Rightarrow> string \<Rightarrow> int \<Rightarrow> row" where
  "sheet_row party depto series votes =
     [''ACTO'' \<mapsto> PyStr ''ODD'', ''CONVOCATORIA'' \<mapsto> PyStr party, ''DEPTO'' \<mapsto> PyStr depto,
      ''CIRCUITO'' \<mapsto> PyInt 4, ''SERIES'' \<mapsto> PyStr series,
      ''ESCRUTINIO'' \<mapsto> PyStr ''Departamental'', ''HOJA'' \<mapsto> PyInt 1326,
      ''CNT_VOTOS'' \<mapsto> PyInt votes]"

definition sheet_a :: table where
  "sheet_a =
     \<lparr>columns = sheet_columns,
      rows = [sheet_row ''Frente_Amplio_-_Lista_711'' ''Canelones'' ''CAA CAB'' 7,
              sheet_row ''Partido_Nacional'' ''Montevideo'' ''BAA'' 5]\<rparr>"

definition sheet_c :: table where
  "sheet_c =
     \<lparr>columns = sheet_columns,
      rows = [sheet_row ''Partido_Colorado O.D.D.'' ''canelones'' ''CAA'' 3,
              sheet_row ''Asamblea_Popular'' ''Canelones'' ''CAA ZZZ'' 1]\<rparr>"

definition example_world :: world where
  "example_world =
     \<lparr>listdir = (\<lambda>folder. if folder = ''raw''
                           then Inr [''a.xlsx'', ''b.xlsx'', ''notes.txt'', ''c.xlsx'']
                           else if folder = ''broken'' then Inr [''b.xlsx'', ''notes.txt'']
                           else if folder = ''empty'' then Inr []
                           else Inl FileNotFoundError),
      read_excel = (\<lambda>p. if p = (''raw'', ''a.xlsx'') then Inr sheet_a
                          else if p = (''raw'', ''c.xlsx'') then Inr sheet_c
                          else Inl ''File is not a zip file''),
      load_json = (\<lambda>p. if p = (''maps'', ''mapping_canelones.json'')
                         then Inr [''CAA'' \<mapsto> ''Canelones'', ''CAB'' \<mapsto> ''Canelones'']
                         else Inl FileNotFoundError),
      iterate_set = remdups,
      float_column = (\<lambda>dfs c. False)\<rparr>"

text \<open>
  A second world: the folder holds one sheet that parses and has its header row but no
  row of data.
\<close>

definition header_only_world :: world where
  "header_only_world =
     \<lparr>listdir = (\<lambda>folder. Inr [''a.xlsx'']),
      read_excel = (\<lambda>p. Inr \<lparr>columns = sheet_columns, rows = []\<rparr>),
      load_json = (\<lambda>p. Inr [''CAA'' \<mapsto> ''Canelones'']),
      iterate_set = remdups,
      float_column = (\<lambda>dfs c. False)\<rparr>"

text \<open>
  A third world: a sheet that does not parse and two sheets with one row each. The
  second names its party column \<open>PARTIDO\<close> and has an empty vote count, so pandas
  stores the vote counts of the concatenation as floats: there an integer column meets
  \<^verbatim>\<open>nan\<close>.
\<close>

definition sheet_m :: table where
  "sheet_m =
     \<lparr>columns = sheet_columns,
      rows = [sheet_row ''Partido_Nacional'' ''Rivera'' ''RAA'' 7]\<rparr>"

definition sheet_n :: table where
  "sheet_n =
     \<lparr>columns =
        [''ACTO'', ''PARTIDO'', ''DEPTO'', ''CIRCUITO'', ''SERIES'', ''ESCRUTINIO'', ''HOJA'',
         ''CNT_VOTOS''],
      rows = [[''ACTO'' \<mapsto> PyStr ''ODD'', ''PARTIDO'' \<mapsto> PyStr ''Partido Nacional'',
               ''DEPTO'' \<mapsto> PyStr ''Rivera'', ''CIRCUITO'' \<mapsto> PyInt 9,
               ''SERIES'' \<mapsto> PyStr ''RAB'', ''ESCRUTINIO'' \<mapsto> PyStr ''Departamental'',
               ''HOJA'' \<mapsto> PyInt 1326, ''CNT_VOTOS'' \<mapsto> PyNaN]]\<rparr>"

definition widening_world :: world where
  "widening_world =
     \<lparr>listdir = (\<lambda>folder. Inr [''bad.xlsx'', ''m.xlsx'', ''n.xlsx'']),
      read_excel = (\<lambda>p. if p = (''raw'', ''m.xlsx'') then Inr sheet_m
                          else if p = (''raw'', ''n.xlsx'') then Inr sheet_n
                          else Inl ''File is not a zip file''),
      load_json = (\<lambda>p. Inl FileNotFoundError),
      iterate_set = remdups,
      float_column = (\<lambda>dfs c. c = ''CNT_VOTOS'')\<rparr>"

section \<open>Splitting and the portion before the delimiter\<close>

lemma find_map_Suc: "find P (map Suc xs) = map_option Suc (find (P \<circ> Suc) xs)"
  by (induction xs) auto

lemma occurs_at_0: "occurs_at pat s 0 = prefix pat s"
  by (simp add: occurs_at_def)

lemma occurs_at_Suc: "occurs_at pat (c # cs) (Suc i) = occurs_at pat cs i"
  by (simp add: occurs_at_def)

lemma first_occurrence_Cons:
  "first_occurrence pat (c # cs) =
     (if prefix pat (c # cs) then Some 0 else map_option Suc (first_occurrence pat cs))"
proof -
  have upt: "[0..<Suc (length (c # cs))] = 0 # map Suc [0..<Suc (length cs)]"
    by (simp add: map_Suc_upt upt_conv_Cons del: upt_Suc)
  have comp: "occurs_at pat (c # cs) \<circ> Suc = occurs_at pat cs"
    by (rule ext) (simp add: occurs_at_Suc)
  show ?thesis
    unfolding first_occurrence_def upt
    by (simp add: find_map_Suc comp occurs_at_0 del: upt_Suc)
qed

lemma portion_before_first_Nil: "portion_before_first pat [] = []"
  by (simp add: portion_before_first_def split: option.splits)

lemma portion_before_first_Cons:
  "portion_before_first pat (c # cs) =
     (if prefix pat (c # cs) then [] else c # portion_before_first pat cs)"
  by (simp add: portion_before_first_def first_occurrence_Cons split: option.splits)

lemma portion_before_first_absent:
  "\<not> sublist pat s \<Longrightarrow> portion_before_first pat s = s"
  by (induction s) (auto simp: portion_before_first_Nil portion_before_first_Cons
      sublist_Cons_right)

lemma portion_before_first_present:
  "sublist pat s \<Longrightarrow> \<exists>rest. s = portion_before_first pat s @ pat @ rest"
proof (induction s)
  case Nil
  then show ?case by (simp add: portion_before_first_Nil)
next
  case (Cons c cs)
  show ?case
  proof (cases "prefix pat (c # cs)")
    case True
    then show ?thesis by (auto simp: portion_before_first_Cons prefix_def)
  next
    case False
    with Cons.prems have "sublist pat cs" by (simp add: sublist_Cons_right)
    with Cons.IH False show ?thesis by (auto simp: portion_before_first_Cons)
  qed
qed

lemma split_from_head:
  "sep \<noteq> [] \<Longrightarrow> \<exists>rest. split_from sep cur s = (cur @ portion_before_first sep s) # rest"
proof (induction s arbitrary: cur)
  case Nil
  then show ?case by (simp add: portion_before_first_Nil)
next
  case (Cons c cs)
  show ?case
  proof (cases "prefix sep (c # cs)")
    case True
    with Cons.prems show ?thesis by (simp add: portion_before_first_Cons)
  next
    case False
    from Cons.IH [OF Cons.prems, of "cur @ [c]"] False show ?thesis
      by (simp add: portion_before_first_Cons)
  qed
qed

lemma split_from_not_Nil: "split_from sep cur s \<noteq> []"
  by (induction s arbitrary: cur) auto

section \<open>Replacement\<close>

lemma py_replace_single:
  "py_replace s [a] [b] = map (\<lambda>c. if c = a then b else c) s"
  by (induction s) auto

lemma py_replace_absent:
  "old \<noteq> [] \<Longrightarrow> \<not> sublist old s \<Longrightarrow> py_replace s old new = s"
  by (induction s) (auto simp: sublist_Cons_right)

lemma inside_occurrence_iff:
  "inside_occurrence pat s j \<longleftrightarrow> (\<exists>i. i \<le> j \<and> j < i + length pat \<and> occurs_at pat s i)"
proof -
  have "set [Suc j - length pat..<Suc j] = {i. i \<le> j \<and> j < i + length pat}"
    unfolding set_upt by auto
  then show ?thesis
    unfolding inside_occurrence_def list_ex_iff by blast
qed

lemma inside_occurrence_Suc:
  assumes "\<not> prefix pat (c # cs)"
  shows "inside_occurrence pat (c # cs) (Suc j) = inside_occurrence pat cs j"
proof
  assume "inside_occurrence pat (c # cs) (Suc j)"
  then obtain i where i: "i \<le> Suc j" "Suc j < i + length pat" "occurs_at pat (c # cs) i"
    by (auto simp: inside_occurrence_iff)
  with assms obtain i' where "i = Suc i'"
    by (cases i) (auto simp: occurs_at_0)
  with i show "inside_occurrence pat cs j"
    by (auto simp: inside_occurrence_iff occurs_at_Suc)
next
  assume "inside_occurrence pat cs j"
  then obtain i where "i \<le> j" "j < i + length pat" "occurs_at pat cs i"
    by (auto simp: inside_occurrence_iff)
  then have "Suc i \<le> Suc j \<and> Suc j < Suc i + length pat \<and> occurs_at pat (c # cs) (Suc i)"
    by (simp add: occurs_at_Suc)
  then show "inside_occurrence pat (c # cs) (Suc j)"
    unfolding inside_occurrence_iff by blast
qed

lemma not_inside_occurrence_0:
  "\<not> prefix pat s \<Longrightarrow> \<not> inside_occurrence pat s 0"
  by (auto simp: inside_occurrence_iff occurs_at_0)

lemma remove_every_occurrence_Nil: "remove_every_occurrence pat [] = []"
  by (simp add: remove_every_occurrence_def)

lemma remove_every_occurrence_Cons:
  assumes "\<not> prefix pat (c # cs)"
  shows "remove_every_occurrence pat (c # cs) = c # remove_every_occurrence pat cs"
proof -
  have upt: "[0..<length (c # cs)] = 0 # map Suc [0..<length cs]"
    by (simp add: map_Suc_upt upt_conv_Cons del: upt_Suc)
  have flt: "filter (\<lambda>j. \<not> inside_occurrence pat (c # cs) j) (map Suc [0..<length cs])
      = map Suc (filter (\<lambda>j. \<not> inside_occurrence pat cs j) [0..<length cs])"
    by (simp add: filter_map comp_def inside_occurrence_Suc [OF assms])
  show ?thesis
    unfolding remove_every_occurrence_def upt
    by (simp add: flt not_inside_occurrence_0 [OF assms] comp_def del: upt_Suc)
qed

lemma inside_occurrence_first:
  assumes "j < length pat"
  shows "inside_occurrence pat (pat @ rest) j"
  unfolding inside_occurrence_iff using assms
  by (intro exI [of _ 0]) (simp add: occurs_at_0)

text \<open>
  A pattern whose first character does not come back later in it cannot overlap itself:
  inside one occurrence no other occurrence starts.
\<close>

lemma no_overlapping_occurrence:
  assumes "pat \<noteq> []" and "hd pat \<notin> set (tl pat)"
    and "occurs_at pat (pat @ rest) i" and "i < length pat"
  shows "i = 0"
proof (rule ccontr)
  assume "i \<noteq> 0"
  from assms(1) obtain a as where pat: "pat = a # as" by (cases pat) auto
  from assms(3,4) have "prefix pat (drop i pat @ rest)"
    by (simp add: occurs_at_def)
  moreover from \<open>i < length pat\<close> obtain b bs where d: "drop i pat = b # bs"
    by (cases "drop i pat") auto
  ultimately have "a = b" by (simp add: pat)
  have "b \<in> set (drop i pat)" by (simp add: d)
  moreover from \<open>i \<noteq> 0\<close> obtain i' where "i = Suc i'" by (cases i) auto
  ultimately have "b \<in> set (drop i' as)" by (simp add: pat)
  then have "b \<in> set as" by (rule in_set_dropD)
  with \<open>a = b\<close> assms(2) show False by (simp add: pat)
qed

lemma occurs_at_shift: "occurs_at pat (p @ rest) (i + length p) = occurs_at pat rest i"
  by (simp add: occurs_at_def)

lemma inside_occurrence_shift:
  assumes "pat \<noteq> []" and "hd pat \<notin> set (tl pat)"
  shows "inside_occurrence pat (pat @ rest) (j + length pat) = inside_occurrence pat rest j"
proof
  assume "inside_occurrence pat (pat @ rest) (j + length pat)"
  then obtain i where i: "i \<le> j + length pat" "j + length pat < i + length pat"
      "occurs_at pat (pat @ rest) i"
    by (auto simp: inside_occurrence_iff)
  have "length pat \<le> i"
  proof (rule ccontr)
    assume "\<not> length pat \<le> i"
    then have "i < length pat" by simp
    with no_overlapping_occurrence [OF assms i(3)] have "i = 0" by simp
    with i(2) show False by simp
  qed
  then obtain k where k: "i = k + length pat"
    by (metis le_add_diff_inverse2)
  with i have "k \<le> j \<and> j < k + length pat \<and> occurs_at pat rest k"
    by (simp add: occurs_at_shift)
  then show "inside_occurrence pat rest j"
    unfolding inside_occurrence_iff by blast
next
  assume "inside_occurrence pat rest j"
  then obtain i where "i \<le> j" "j < i + length pat" "occurs_at pat rest i"
    by (auto simp: inside_occurrence_iff)
  then have "i + length pat \<le> j + length pat \<and> j + length pat < (i + length pat) + length pat
      \<and> occurs_at pat (pat @ rest) (i + length pat)"
    by (simp add: occurs_at_shift)
  then show "inside_occurrence pat (pat @ rest) (j + length pat)"
    unfolding inside_occurrence_iff by blast
qed

lemma remove_every_occurrence_skip:
  assumes "pat \<noteq> []" and "hd pat \<notin> set (tl pat)"
  shows "remove_every_occurrence pat (pat @ rest) = remove_every_occurrence pat rest"
proof -
  let ?n = "length pat"
  have upt: "[0..<length (pat @ rest)] = [0..<?n] @ map (\<lambda>i. i + ?n) [0..<length rest]"
  proof -
    have "[0..<?n + length rest] = [0..<?n] @ [?n..<?n + length rest]"
      by (rule upt_add_eq_append) simp
    moreover have "map (\<lambda>i. i + ?n) [0..<length rest] = [?n..<length rest + ?n]"
      by (rule map_add_upt)
    ultimately show ?thesis by (simp only: length_append add.commute)
  qed
  have fst: "filter (\<lambda>j. \<not> inside_occurrence pat (pat @ rest) j) [0..<?n] = []"
    by (simp add: filter_empty_conv inside_occurrence_first)
  have snd: "filter (\<lambda>j. \<not> inside_occurrence pat (pat @ rest) j) (map (\<lambda>i. i + ?n) [0..<length rest])
      = map (\<lambda>i. i + ?n) (filter (\<lambda>j. \<not> inside_occurrence pat rest j) [0..<length rest])"
    by (simp add: filter_map comp_def inside_occurrence_shift [OF assms])
  have nth: "map (nth (pat @ rest)) (map (\<lambda>i. i + ?n) js) = map (nth rest) js" for js
    by (simp add: nth_append)
  show ?thesis
    unfolding remove_every_occurrence_def upt filter_append fst snd map_append nth
    by (simp only: list.map append_Nil)
qed

lemma py_replace_remove:
  assumes "pat \<noteq> []" and "hd pat \<notin> set (tl pat)"
  shows "py_replace s pat [] = remove_every_occurrence pat s"
proof (induction s rule: length_induct)
  case (1 s)
  show ?case
  proof (cases s)
    case Nil
    with assms show ?thesis by (simp add: remove_every_occurrence_Nil)
  next
    case (Cons c cs)
    show ?thesis
    proof (cases "prefix pat s")
      case True
      then obtain rest where s: "s = pat @ rest" by (auto simp: prefix_def)
      with assms(1) have "length rest < length s" by simp
      with 1 have "py_replace rest pat [] = remove_every_occurrence pat rest" by blast
      moreover from True assms(1) Cons
      have "py_replace s pat [] = py_replace (drop (length pat) s) pat []"
        by simp
      ultimately show ?thesis
        by (simp add: s remove_every_occurrence_skip [OF assms])
    next
      case False
      from 1 Cons have "py_replace cs pat [] = remove_every_occurrence pat cs" by simp
      with False Cons assms(1) show ?thesis
        by (simp add: remove_every_occurrence_Cons)
    qed
  qed
qed

lemma set_py_replace_remove: "old \<noteq> [] \<Longrightarrow> set (py_replace s old []) \<subseteq> set s"
proof (induction s rule: length_induct)
  case (1 s)
  show ?case
  proof (cases s)
    case Nil
    with 1 show ?thesis by simp
  next
    case (Cons c cs)
    show ?thesis
    proof (cases "prefix old s")
      case True
      from 1 Cons have "set (py_replace (drop (length old) s) old []) \<subseteq> set (drop (length old) s)"
        by simp
      also have "\<dots> \<subseteq> set s" by (rule set_drop_subset)
      finally show ?thesis using True 1 Cons by simp
    next
      case False
      from 1 Cons have "set (py_replace cs old []) \<subseteq> set cs" by simp
      with False Cons show ?thesis by auto
    qed
  qed
qed

section \<open>Claims about party-name normalization\<close>

lemma clean_party_name_parts:
  "\<exists>rest. py_split s ''_-_'' = Inr (portion_before_first ''_-_'' s # rest)"
  using split_from_head [of "''_-_''" "[]" s] by (simp add: py_split_def)

lemma clean_party_name_eq: "clean_party_name (PyStr s) = Inr (normalize_spec s)"
proof -
  obtain rest where "py_split s ''_-_'' = Inr (portion_before_first ''_-_'' s # rest)"
    using clean_party_name_parts by blast
  moreover have "py_replace p ''_'' '' '' = underscores_to_spaces p" for p
    by (simp add: py_replace_single underscores_to_spaces_def)
  moreover have "py_replace q '' O.D.D.'' '''' = remove_every_occurrence '' O.D.D.'' q" for q
    by (rule py_replace_remove) simp_all
  ultimately show ?thesis
    by (simp add: clean_party_name_def py_first_def normalize_spec_def)
qed

lemma no_underscore_normalize_spec: "CHR ''_'' \<notin> set (normalize_spec s)"
proof -
  have "remove_every_occurrence '' O.D.D.'' q = py_replace q '' O.D.D.'' ''''" for q
    by (rule py_replace_remove [symmetric]) simp_all
  then have "set (normalize_spec s) \<subseteq> set (underscores_to_spaces (portion_before_first ''_-_'' s))"
    by (simp add: normalize_spec_def set_py_replace_remove)
  moreover have "CHR ''_'' \<notin> set (underscores_to_spaces p)" for p
    by (auto simp: underscores_to_spaces_def)
  ultimately show ?thesis by blast
qed

lemma normalize_spec_clean:
  assumes "CHR ''_'' \<notin> set s" and "\<not> sublist '' O.D.D.'' s"
  shows "normalize_spec s = s"
proof -
  from assms(1) have "\<not> sublist ''_-_'' s"
    by (auto simp: sublist_def)
  then have "portion_before_first ''_-_'' s = s"
    by (rule portion_before_first_absent)
  moreover from assms(1) have "underscores_to_spaces s = s"
    unfolding underscores_to_spaces_def by (intro map_idI) auto
  moreover have "remove_every_occurrence '' O.D.D.'' s = py_replace s '' O.D.D.'' ''''"
    by (rule py_replace_remove [symmetric]) simp_all
  moreover from assms(2) have "py_replace s '' O.D.D.'' '''' = s"
    by (intro py_replace_absent) simp_all
  ultimately show ?thesis by (simp add: normalize_spec_def)
qed

text \<open>
  Claim C1. For every input string, \<open>clean_party_name\<close> returns what the three steps of
  the specification give: the portion before the first \<open>_-_\<close> (the whole string when
  there is none), with every underscore turned into a space, and with every occurrence
  of \<open> O.D.D.\<close> removed. On \<open>Frente_Amplio_-_Lista_711\<close> that is \<open>Frente Amplio\<close>, on
  \<open>Partido Nacional O.D.D.\<close> it is \<open>Partido Nacional\<close>.
\<close>

theorem clean_party_name_refines_spec:
  "clean_party_name (PyStr s) =
     Inr (remove_every_occurrence '' O.D.D.''
            (underscores_to_spaces (portion_before_first ''_-_'' s)))
   \<and> clean_party_name (PyStr ''Frente_Amplio_-_Lista_711'') = Inr ''Frente Amplio''
   \<and> clean_party_name (PyStr ''Partido Nacional O.D.D.'') = Inr ''Partido Nacional''"
proof -
  have "clean_party_name (PyStr s) =
     Inr (remove_every_occurrence '' O.D.D.''
            (underscores_to_spaces (portion_before_first ''_-_'' s)))"
    using clean_party_name_eq [of s] by (simp add: normalize_spec_def)
  moreover have "clean_party_name (PyStr ''Frente_Amplio_-_Lista_711'') = Inr ''Frente Amplio''"
    by (simp add: clean_party_name_def py_split_def py_first_def)
  moreover have "clean_party_name (PyStr ''Partido Nacional O.D.D.'') = Inr ''Partido Nacional''"
    by (simp add: clean_party_name_def py_split_def py_first_def)
  ultimately show ?thesis by blast
qed

text \<open>
  The specification's three steps, computed on their own on the first example, meet the
  code's result there.
\<close>

theorem clean_party_name_refines_spec_witness:
  "portion_before_first ''_-_'' ''Frente_Amplio_-_Lista_711'' = ''Frente_Amplio''
   \<and> underscores_to_spaces ''Frente_Amplio'' = ''Frente Amplio''
   \<and> clean_party_name (PyStr ''Frente_Amplio_-_Lista_711'') =
       Inr (remove_every_occurrence '' O.D.D.'' ''Frente Amplio'')"
proof -
  have p: "portion_before_first ''_-_'' ''Frente_Amplio_-_Lista_711'' = ''Frente_Amplio''"
    by (simp add: portion_before_first_Cons portion_before_first_Nil)
  have u: "underscores_to_spaces ''Frente_Amplio'' = ''Frente Amplio''"
    by (simp add: underscores_to_spaces_def)
  from clean_party_name_refines_spec [of "''Frente_Amplio_-_Lista_711''"] p u
  show ?thesis by simp
qed

text \<open>
  Claim C9. \<open>clean_party_name\<close> never fails on a string: splitting on \<open>_-_\<close> raises
  nothing and gives a non-empty list, so its first element exists, and a string comes
  back for every input string, the empty one included.
\<close>

theorem clean_party_name_total:
  "(\<exists>parts. py_split s ''_-_'' = Inr parts \<and> parts \<noteq> []
      \<and> (\<exists>party. py_first parts = Inr party))
   \<and> (\<exists>r. clean_party_name (PyStr s) = Inr r)
   \<and> clean_party_name (PyStr '''') = Inr ''''"
proof -
  obtain rest where "py_split s ''_-_'' = Inr (portion_before_first ''_-_'' s # rest)"
    using clean_party_name_parts by blast
  then have "\<exists>parts. py_split s ''_-_'' = Inr parts \<and> parts \<noteq> []
      \<and> (\<exists>party. py_first parts = Inr party)"
    by (simp add: py_first_def)
  moreover have "\<exists>r. clean_party_name (PyStr s) = Inr r"
    by (simp add: clean_party_name_eq)
  moreover have "clean_party_name (PyStr '''') = Inr ''''"
    by (simp add: clean_party_name_def py_split_def py_first_def)
  ultimately show ?thesis by blast
qed

text \<open>
  Claim C4, as stated, fails: \<open>_O.D._O.D.D.D.\<close> holds neither \<open>_-_\<close> nor \<open> O.D.D.\<close>,
  its underscores become spaces, the one occurrence of \<open> O.D.D.\<close> that this creates is
  removed, and what is left closes up into \<open> O.D.D.\<close> again. A second application
  removes that and returns the empty string.
\<close>

theorem clean_party_name_not_idempotent:
  "\<not> sublist ''_-_'' ''_O.D._O.D.D.D.''
   \<and> \<not> sublist '' O.D.D.'' ''_O.D._O.D.D.D.''
   \<and> clean_party_name (PyStr ''_O.D._O.D.D.D.'') = Inr '' O.D.D.''
   \<and> clean_party_name (PyStr '' O.D.D.'') = Inr ''''
   \<and> '' O.D.D.'' \<noteq> ''''"
  by (simp add: clean_party_name_def py_split_def py_first_def sublist_Cons_right)

text \<open>
  Claim C4, amended. For every string \<open>s\<close> that holds neither \<open>_-_\<close> nor \<open> O.D.D.\<close>
  and whose normalization \<open>r\<close> does not hold \<open> O.D.D.\<close> either, normalizing \<open>r\<close> gives
  \<open>r\<close> again. That is so in particular for every string with no underscore and no
  \<open> O.D.D.\<close>: normalization returns it unchanged.
\<close>

theorem clean_party_name_idempotent_on_clean:
  "(\<not> sublist ''_-_'' s \<and> \<not> sublist '' O.D.D.'' s
      \<and> clean_party_name (PyStr s) = Inr r \<and> \<not> sublist '' O.D.D.'' r
      \<longrightarrow> clean_party_name (PyStr r) = Inr r)
   \<and> (CHR ''_'' \<notin> set s \<and> \<not> sublist '' O.D.D.'' s
      \<longrightarrow> clean_party_name (PyStr s) = Inr s)"
proof (intro conjI impI)
  assume a: "\<not> sublist ''_-_'' s \<and> \<not> sublist '' O.D.D.'' s
      \<and> clean_party_name (PyStr s) = Inr r \<and> \<not> sublist '' O.D.D.'' r"
  then have r: "r = normalize_spec s" by (simp add: clean_party_name_eq)
  then have "CHR ''_'' \<notin> set r" by (simp add: no_underscore_normalize_spec)
  with a have "normalize_spec r = r" by (intro normalize_spec_clean) simp_all
  then show "clean_party_name (PyStr r) = Inr r" by (simp add: clean_party_name_eq)
next
  assume "CHR ''_'' \<notin> set s \<and> \<not> sublist '' O.D.D.'' s"
  then have "normalize_spec s = s" by (intro normalize_spec_clean) simp_all
  then show "clean_party_name (PyStr s) = Inr s" by (simp add: clean_party_name_eq)
qed

theorem clean_party_name_idempotent_on_clean_witness:
  "\<not> sublist ''_-_'' ''Partido_Nacional''
   \<and> \<not> sublist '' O.D.D.'' ''Partido_Nacional''
   \<and> clean_party_name (PyStr ''Partido_Nacional'') = Inr ''Partido Nacional''
   \<and> \<not> sublist '' O.D.D.'' ''Partido Nacional''
   \<and> clean_party_name (PyStr ''Partido Nacional'') = Inr ''Partido Nacional''
   \<and> CHR ''_'' \<notin> set ''Frente Amplio''
   \<and> \<not> sublist '' O.D.D.'' ''Frente Amplio''
   \<and> clean_party_name (PyStr ''Frente Amplio'') = Inr ''Frente Amplio''"
proof -
  have h1: "\<not> sublist ''_-_'' ''Partido_Nacional''"
    by (simp add: sublist_Cons_right)
  have h2: "\<not> sublist '' O.D.D.'' ''Partido_Nacional''"
    by (simp add: sublist_Cons_right)
  have h3: "clean_party_name (PyStr ''Partido_Nacional'') = Inr ''Partido Nacional''"
    by (simp add: clean_party_name_def py_split_def py_first_def)
  have h4: "\<not> sublist '' O.D.D.'' ''Partido Nacional''"
    by (simp add: sublist_Cons_right)
  have h5: "CHR ''_'' \<notin> set ''Frente Amplio''"
    by simp
  have h6: "\<not> sublist '' O.D.D.'' ''Frente Amplio''"
    by (simp add: sublist_Cons_right)
  from clean_party_name_idempotent_on_clean [of "''Partido_Nacional''" "''Partido Nacional''"]
    h1 h2 h3 h4
  have "clean_party_name (PyStr ''Partido Nacional'') = Inr ''Partido Nacional''"
    by blast
  moreover from clean_party_name_idempotent_on_clean [of "''Frente Amplio''" "''Frente Amplio''"]
    h5 h6
  have "clean_party_name (PyStr ''Frente Amplio'') = Inr ''Frente Amplio''"
    by blast
  ultimately show ?thesis using h1 h2 h3 h4 h5 h6 by blast
qed

section \<open>Zone resolution: splitting, rendering and the set\<close>

lemma split_ws_from_all_space:
  "list_all is_space s \<Longrightarrow> split_ws_from cur s = (if cur = [] then [] else [cur])"
  by (induction s arbitrary: cur) auto

lemma split_ws_from_no_space:
  "\<not> list_ex is_space s \<Longrightarrow> split_ws_from cur s = (if cur @ s = [] then [] else [cur @ s])"
  by (induction s arbitrary: cur) auto

lemma split_ws_from_codes:
  "\<not> list_ex is_space cur \<Longrightarrow>
   list_all (\<lambda>code. code \<noteq> [] \<and> \<not> list_ex is_space code) (split_ws_from cur s)"
  by (induction s arbitrary: cur) auto

lemma concat_split_ws_from:
  "concat (split_ws_from cur s) = cur @ filter (\<lambda>c. \<not> is_space c) s"
  by (induction s arbitrary: cur) auto

lemma split_ws_from_at_space:
  "is_space c \<Longrightarrow>
   split_ws_from cur (a @ c # b) = split_ws_from cur a @ split_ws_from [] b"
  by (induction a arbitrary: cur) auto

lemma py_split_ws_at_space:
  "is_space c \<Longrightarrow> py_split_ws (a @ c # b) = py_split_ws a @ py_split_ws b"
  by (simp add: py_split_ws_def split_ws_from_at_space)

lemma py_split_ws_word:
  "code \<noteq> [] \<Longrightarrow> \<not> list_ex is_space code \<Longrightarrow> py_split_ws code = [code]"
  by (simp add: py_split_ws_def split_ws_from_no_space)

lemma digit_char_in: "d < 10 \<Longrightarrow> digit_char d \<in> set ''0123456789''"
  unfolding digit_char_def by (rule nth_mem) simp

lemma set_dec_nat: "set (dec_nat n) \<subseteq> set ''0123456789''"
proof (induction n rule: dec_nat.induct)
  case (1 n)
  show ?case
  proof (cases "n < 10")
    case True
    with digit_char_in [of n] show ?thesis by (subst dec_nat.simps) simp
  next
    case False
    have "digit_char (n mod 10) \<in> set ''0123456789''"
      by (rule digit_char_in) simp
    with 1 False show ?thesis by (subst dec_nat.simps) simp
  qed
qed

lemma dec_nat_not_Nil: "dec_nat n \<noteq> []"
  by (subst dec_nat.simps) simp

lemma no_space_dec_nat: "\<not> list_ex is_space (dec_nat n)"
proof -
  have "\<not> is_space c" if "c \<in> set ''0123456789''" for c
    using that by (auto simp: is_space_def whitespace_def)
  with set_dec_nat [of n] show ?thesis
    unfolding list_ex_iff by blast
qed

lemma py_str_int: "py_str (PyInt i) \<noteq> [] \<and> \<not> list_ex is_space (py_str (PyInt i))"
  using no_space_dec_nat dec_nat_not_Nil
  by (simp add: py_str_def is_space_def whitespace_def)

lemma iteration_order_Nil: "iteration_order iter \<Longrightarrow> iter [] = []"
  unfolding iteration_order_def by (metis set_empty)

lemma distinct_singleton: "distinct ys \<Longrightarrow> set ys = {a} \<Longrightarrow> ys = [a]"
  by (cases ys) (auto simp: subset_singleton_iff dest!: subset_singletonD)

lemma distinct_pair:
  assumes "distinct ys" and "set ys = {a, b}" and "a \<noteq> b"
  shows "ys = [a, b] \<or> ys = [b, a]"
proof -
  from assms have "card (set ys) = 2" by simp
  with assms(1) have "length ys = 2" by (simp add: distinct_card)
  then obtain x y where ys: "ys = [x, y]"
    by (cases ys; cases "tl ys") auto
  with assms show ?thesis by (auto simp: doubleton_eq_iff)
qed

lemma get_zone_members:
  assumes "iteration_order iter"
  shows "\<exists>members. distinct members
      \<and> set members = (\<lambda>code. dict_get m code ''Unknown'') ` set (py_split_ws (py_str serie))
      \<and> get_zone iter serie m = py_join '' '' members"
proof -
  let ?zones = "map (\<lambda>s. dict_get m s ''Unknown'') (py_split_ws (py_str serie))"
  from assms have "distinct (iter ?zones) \<and> set (iter ?zones) = set ?zones"
    by (simp add: iteration_order_def)
  moreover have "get_zone iter serie m = py_join '' '' (iter ?zones)"
    by (simp add: get_zone_def)
  ultimately show ?thesis by (intro exI [of _ "iter ?zones"]) simp
qed

lemma get_zone_single:
  assumes "iteration_order iter" and "py_split_ws (py_str serie) = [code]"
  shows "get_zone iter serie m = dict_get m code ''Unknown''"
proof -
  from assms(1) have "distinct (iter [dict_get m code ''Unknown''])
      \<and> set (iter [dict_get m code ''Unknown'']) = {dict_get m code ''Unknown''}"
    by (simp add: iteration_order_def)
  then have "iter [dict_get m code ''Unknown''] = [dict_get m code ''Unknown'']"
    by (simp add: distinct_singleton)
  with assms(2) show ?thesis by (simp add: get_zone_def)
qed

text \<open>
  Claim C2. For every series field and every code-to-zone mapping, \<open>get_zone\<close> joins with
  single spaces the members of a duplicate-free list that holds exactly the zone names
  of the codes of the field, \<open>Unknown\<close> standing for a code the mapping does not have;
  the order of the members is the interpreter's. The codes are the pieces that splitting
  on whitespace gives: none is empty, none holds whitespace, and together they are the
  field's characters other than whitespace; splitting cuts at every whitespace
  character, leaves a piece without whitespace whole, and gives nothing for the empty
  string. Series \<open>CAA CAB\<close> with both codes mapped to
  \<open>Canelones\<close> gives \<open>Canelones\<close>; series \<open>CAA ZZZ\<close> with only \<open>CAA\<close> mapped gives
  \<open>Canelones\<close> and \<open>Unknown\<close> in one of the two orders.
\<close>

theorem get_zone_resolves:
  assumes "iteration_order iter"
  shows "(\<exists>members. distinct members
            \<and> set members =
                (\<lambda>code. dict_get m code ''Unknown'') ` set (py_split_ws (py_str serie))
            \<and> get_zone iter serie m = py_join '' '' members)
      \<and> list_all (\<lambda>code. code \<noteq> [] \<and> \<not> list_ex is_space code) (py_split_ws (py_str serie))
      \<and> concat (py_split_ws (py_str serie)) = filter (\<lambda>c. \<not> is_space c) (py_str serie)
      \<and> (\<forall>a c b. is_space c \<longrightarrow> py_split_ws (a @ c # b) = py_split_ws a @ py_split_ws b)
      \<and> (\<forall>code. code \<noteq> [] \<and> \<not> list_ex is_space code \<longrightarrow> py_split_ws code = [code])
      \<and> py_split_ws [] = []
      \<and> get_zone iter (PyStr ''CAA CAB'') [''CAA'' \<mapsto> ''Canelones'', ''CAB'' \<mapsto> ''Canelones'']
          = ''Canelones''
      \<and> get_zone iter (PyStr ''CAA ZZZ'') [''CAA'' \<mapsto> ''Canelones'']
          \<in> {''Canelones Unknown'', ''Unknown Canelones''}"
proof -
  have law1: "\<forall>a c b. is_space c \<longrightarrow> py_split_ws (a @ c # b) = py_split_ws a @ py_split_ws b"
    by (simp add: py_split_ws_at_space)
  have law2: "\<forall>code. code \<noteq> [] \<and> \<not> list_ex is_space code \<longrightarrow> py_split_ws code = [code]"
    by (simp add: py_split_ws_word)
  have law3: "py_split_ws [] = []"
    by (simp add: py_split_ws_def)
  have codes: "list_all (\<lambda>code. code \<noteq> [] \<and> \<not> list_ex is_space code)
      (py_split_ws (py_str serie))"
    unfolding py_split_ws_def by (rule split_ws_from_codes) simp
  have cover: "concat (py_split_ws (py_str serie)) = filter (\<lambda>c. \<not> is_space c) (py_str serie)"
    by (simp add: py_split_ws_def concat_split_ws_from)
  have split1: "py_split_ws ''CAA CAB'' = [''CAA'', ''CAB'']"
    by (simp add: py_split_ws_def is_space_def whitespace_def)
  have split2: "py_split_ws ''CAA ZZZ'' = [''CAA'', ''ZZZ'']"
    by (simp add: py_split_ws_def is_space_def whitespace_def)
  let ?z1 = "[''Canelones'', ''Canelones'']"
  from assms have "distinct (iter ?z1) \<and> set (iter ?z1) = {''Canelones''}"
    by (simp add: iteration_order_def)
  then have "iter ?z1 = [''Canelones'']"
    by (simp add: distinct_singleton)
  then have ex1: "get_zone iter (PyStr ''CAA CAB'')
      [''CAA'' \<mapsto> ''Canelones'', ''CAB'' \<mapsto> ''Canelones''] = ''Canelones''"
    by (simp add: get_zone_def py_str_def split1 dict_get_def)
  let ?z2 = "[''Canelones'', ''Unknown'']"
  from assms have "distinct (iter ?z2)" and "set (iter ?z2) = {''Canelones'', ''Unknown''}"
    by (simp_all add: iteration_order_def)
  then have "iter ?z2 = [''Canelones'', ''Unknown''] \<or> iter ?z2 = [''Unknown'', ''Canelones'']"
    by (rule distinct_pair) simp
  then have ex2: "get_zone iter (PyStr ''CAA ZZZ'') [''CAA'' \<mapsto> ''Canelones'']
      \<in> {''Canelones Unknown'', ''Unknown Canelones''}"
    by (auto simp: get_zone_def py_str_def split2 dict_get_def)
  from get_zone_members [OF assms] codes cover law1 law2 law3 ex1 ex2 show ?thesis
    by (intro conjI)
qed

lemma iteration_order_remdups: "iteration_order remdups"
  by (simp add: iteration_order_def)

theorem get_zone_resolves_witness:
  "iteration_order (remdups :: string list \<Rightarrow> string list)
   \<and> get_zone remdups (PyStr ''CAA CAB'') [''CAA'' \<mapsto> ''Canelones'', ''CAB'' \<mapsto> ''Canelones'']
       = ''Canelones''
   \<and> py_split_ws ''CAA ZZZ'' = [''CAA'', ''ZZZ'']
   \<and> get_zone remdups (PyStr ''CAA ZZZ'') [''CAA'' \<mapsto> ''Canelones''] = ''Canelones Unknown''"
proof -
  have "get_zone remdups (PyStr ''CAA ZZZ'') [''CAA'' \<mapsto> ''Canelones''] = ''Canelones Unknown''"
    by (simp add: get_zone_def py_str_def py_split_ws_def is_space_def whitespace_def dict_get_def)
  moreover have "py_split_ws ''CAA ZZZ'' = [''CAA'', ''ZZZ'']"
    by (simp add: py_split_ws_def is_space_def whitespace_def)
  ultimately show ?thesis
    using get_zone_resolves [OF iteration_order_remdups,
        of "[''CAA'' \<mapsto> ''Canelones'']" "PyStr ''CAA ZZZ''"] iteration_order_remdups
    by simp
qed

text \<open>
  Claim C10. \<open>get_zone\<close> works on the string rendering of the series field: a value and
  its rendering resolve alike, and an integer is one code, its decimal numeral, looked up
  as such. A field whose rendering is empty or all whitespace has no codes, and its zone
  is the empty string.
\<close>

theorem get_zone_coerces:
  assumes "iteration_order iter"
  shows "get_zone iter serie m = get_zone iter (PyStr (py_str serie)) m
      \<and> py_split_ws (py_str (PyInt n)) = [py_str (PyInt n)]
      \<and> get_zone iter (PyInt n) m = dict_get m (py_str (PyInt n)) ''Unknown''
      \<and> py_str (PyInt 12) = ''12''
      \<and> (list_all is_space (py_str serie) \<longrightarrow>
            py_split_ws (py_str serie) = [] \<and> get_zone iter serie m = '''')"
proof -
  have coerce: "get_zone iter serie m = get_zone iter (PyStr (py_str serie)) m"
    by (simp add: get_zone_def py_str_def)
  have one: "py_split_ws (py_str (PyInt n)) = [py_str (PyInt n)]"
    using py_str_int [of n] by (simp add: py_split_ws_def split_ws_from_no_space)
  have num: "get_zone iter (PyInt n) m = dict_get m (py_str (PyInt n)) ''Unknown''"
    using assms one by (rule get_zone_single)
  have twelve: "py_str (PyInt 12) = ''12''"
    by (simp add: py_str_def dec_nat.simps digit_char_def)
  have blank: "py_split_ws (py_str serie) = [] \<and> get_zone iter serie m = ''''"
    if "list_all is_space (py_str serie)"
    using that iteration_order_Nil [OF assms]
    by (simp add: get_zone_def py_split_ws_def split_ws_from_all_space)
  from coerce one num twelve blank show ?thesis by blast
qed

theorem get_zone_coerces_witness:
  "iteration_order (remdups :: string list \<Rightarrow> string list)
   \<and> get_zone remdups (PyInt 12) [''12'' \<mapsto> ''Centro''] = ''Centro''
   \<and> get_zone remdups (PyInt 12) [''12'' \<mapsto> ''Centro'']
       = get_zone remdups (PyStr ''12'') [''12'' \<mapsto> ''Centro'']
   \<and> list_all is_space (py_str (PyStr ''  ''))
   \<and> get_zone remdups (PyStr ''  '') [''12'' \<mapsto> ''Centro''] = ''''
   \<and> list_all is_space (py_str (PyStr ''''))
   \<and> get_zone remdups (PyStr '''') [''12'' \<mapsto> ''Centro''] = ''''"
proof -
  have sp: "list_all is_space (py_str (PyStr ''  ''))"
    by (simp add: py_str_def is_space_def whitespace_def)
  have em: "list_all is_space (py_str (PyStr ''''))"
    by (simp add: py_str_def)
  note a = get_zone_coerces [OF iteration_order_remdups, of "PyInt 12" "[''12'' \<mapsto> ''Centro'']" 12]
  note b = get_zone_coerces [OF iteration_order_remdups, of "PyStr ''  ''" "[''12'' \<mapsto> ''Centro'']" 12]
  note c = get_zone_coerces [OF iteration_order_remdups, of "PyStr ''''" "[''12'' \<mapsto> ''Centro'']" 12]
  from a have a1: "py_str (PyInt 12) = ''12''" by blast
  from a have a2: "get_zone remdups (PyInt 12) [''12'' \<mapsto> ''Centro'']
       = dict_get [''12'' \<mapsto> ''Centro''] (py_str (PyInt 12)) ''Unknown''" by blast
  from a have a3: "get_zone remdups (PyInt 12) [''12'' \<mapsto> ''Centro'']
       = get_zone remdups (PyStr (py_str (PyInt 12))) [''12'' \<mapsto> ''Centro'']" by blast
  have "get_zone remdups (PyInt 12) [''12'' \<mapsto> ''Centro''] = ''Centro''"
    unfolding a2 a1 by (simp add: dict_get_def)
  moreover have "get_zone remdups (PyInt 12) [''12'' \<mapsto> ''Centro'']
       = get_zone remdups (PyStr ''12'') [''12'' \<mapsto> ''Centro'']"
    using a3 unfolding a1 .
  moreover from b sp have "get_zone remdups (PyStr ''  '') [''12'' \<mapsto> ''Centro''] = ''''"
    by blast
  moreover from c em have "get_zone remdups (PyStr '''') [''12'' \<mapsto> ''Centro''] = ''''"
    by blast
  ultimately show ?thesis using sp em iteration_order_remdups by blast
qed

section \<open>The loader\<close>

lemma load_files_eq:
  "load_files w folder names all_data out =
     (all_data @ parsed_frames w folder names, out @ parse_failures w folder names)"
  by (induction names arbitrary: all_data out)
     (auto simp: parsed_frames_def parse_failures_def split: sum.splits)

lemma load_odd_data_eq:
  assumes "listdir w folder = Inr names"
  shows "load_odd_data w folder =
     (Inr (if parsed_frames w folder names = [] then None
           else Some (pd_concat (float_column w) (parsed_frames w folder names))),
      parse_failures w folder names)"
  using assms by (simp add: load_odd_data_def load_files_eq)

lemma first_seen_foldl:
  "set (foldl (\<lambda>acc x. if x \<in> set acc then acc else acc @ [x]) acc xs) = set acc \<union> set xs
   \<and> (distinct acc \<longrightarrow> distinct (foldl (\<lambda>acc x. if x \<in> set acc then acc else acc @ [x]) acc xs))"
  by (induction xs arbitrary: acc) auto

lemma set_first_seen: "set (first_seen xs) = set xs"
  using first_seen_foldl [of "[]" xs] by (simp add: first_seen_def)

lemma distinct_first_seen: "distinct (first_seen xs)"
  using first_seen_foldl [of "[]" xs] by (simp add: first_seen_def)

lemma columns_pd_concat:
  "columns (pd_concat f dfs) = first_seen (concat (map columns dfs))"
  by (simp add: pd_concat_def Let_def)

lemma set_columns_pd_concat:
  "set (columns (pd_concat f dfs)) = (\<Union>df\<in>set dfs. set (columns df))"
  by (simp add: columns_pd_concat set_first_seen)

lemma list_all2_concat_map:
  "(\<And>x. x \<in> set xs \<Longrightarrow> list_all2 P (f x) (g x)) \<Longrightarrow>
   list_all2 P (concat (map f xs)) (concat (map g xs))"
  by (induction xs) (auto intro: list_all2_appendI)

lemma carries_stored_row:
  assumes "set (columns df) \<subseteq> set cols"
  shows "carries as_float cols (df, r)
      (\<lambda>c. if c \<in> set cols
            then Some (if c \<in> set (columns df) then store (as_float c) (cell_of r c) else PyNaN)
            else None)"
  using assms unfolding carries_def store_def
  by (auto split: cell.splits)

lemma rows_pd_concat_carries:
  "list_all2 (carries (f dfs) (columns (pd_concat f dfs))) (row_sources dfs)
     (rows (pd_concat f dfs))"
proof -
  let ?cols = "first_seen (concat (map columns dfs))"
  have sub: "set (columns df) \<subseteq> set ?cols" if "df \<in> set dfs" for df
    using that by (auto simp: set_first_seen)
  have "list_all2 (carries (f dfs) ?cols)
      (concat (map (\<lambda>df. map (\<lambda>r. (df, r)) (rows df)) dfs))
      (concat (map (\<lambda>df. map (\<lambda>r c.
          if c \<in> set ?cols
          then Some (if c \<in> set (columns df) then store (f dfs c) (cell_of r c) else PyNaN)
          else None) (rows df)) dfs))"
  proof (rule list_all2_concat_map)
    fix df assume "df \<in> set dfs"
    from sub [OF this] show "list_all2 (carries (f dfs) ?cols)
        (map (\<lambda>r. (df, r)) (rows df))
        (map (\<lambda>r c. if c \<in> set ?cols
                    then Some (if c \<in> set (columns df)
                               then store (f dfs c) (cell_of r c) else PyNaN)
                    else None) (rows df))"
      by (simp add: list_all2_map1 list_all2_map2 list_all2_same carries_stored_row)
  qed
  then show ?thesis
    by (simp add: pd_concat_def Let_def row_sources_def)
qed

lemma stored_row_same:
  assumes "dom r = set cols" and "set (columns df) = set cols"
    and "\<And>c. c \<in> set cols \<Longrightarrow> \<not> as_float c"
  shows "(\<lambda>c. if c \<in> set cols
             then Some (if c \<in> set (columns df) then store (as_float c) (cell_of r c) else PyNaN)
             else None) = r"
proof (rule ext)
  fix c
  show "(if c \<in> set cols
         then Some (if c \<in> set (columns df) then store (as_float c) (cell_of r c) else PyNaN)
         else None) = r c"
  proof (cases "c \<in> set cols")
    case True
    with assms(1) obtain v where "r c = Some v" by auto
    with True assms(2,3) show ?thesis
      by (simp add: store_def cell_of_def split: cell.splits)
  next
    case False
    with assms(1) have "r c = None" by auto
    with False show ?thesis by simp
  qed
qed

lemma rows_pd_concat_same_schema:
  assumes "list_all (\<lambda>df. set (columns df) = set cols
              \<and> list_all (\<lambda>r. dom r = set cols) (rows df)) dfs"
    and "list_all (\<lambda>c. \<not> f dfs c) cols"
  shows "rows (pd_concat f dfs) = concat (map rows dfs)"
proof (cases "dfs = []")
  case True
  then show ?thesis by (simp add: pd_concat_def)
next
  case False
  let ?all = "first_seen (concat (map columns dfs))"
  from assms have cols: "\<And>df. df \<in> set dfs \<Longrightarrow> set (columns df) = set cols"
    and doms: "\<And>df r. df \<in> set dfs \<Longrightarrow> r \<in> set (rows df) \<Longrightarrow> dom r = set cols"
    and nofl: "\<And>c. c \<in> set cols \<Longrightarrow> \<not> f dfs c"
    by (auto simp: list_all_iff)
  from False obtain df0 where "df0 \<in> set dfs" by (cases dfs) auto
  with cols have all: "set ?all = set cols"
    by (auto simp: set_first_seen)
  have same: "map (\<lambda>r c. if c \<in> set ?all
                    then Some (if c \<in> set (columns df)
                               then store (f dfs c) (cell_of r c) else PyNaN)
                    else None) (rows df) = rows df" if "df \<in> set dfs" for df
  proof (rule map_idI)
    fix r assume "r \<in> set (rows df)"
    with doms that have "dom r = set cols" by blast
    from stored_row_same [OF this cols [OF that] nofl]
    show "(\<lambda>c. if c \<in> set ?all
            then Some (if c \<in> set (columns df) then store (f dfs c) (cell_of r c) else PyNaN)
            else None) = r"
      unfolding all by simp
  qed
  have m: "map (\<lambda>df. map (\<lambda>r c. if c \<in> set ?all
                    then Some (if c \<in> set (columns df)
                               then store (f dfs c) (cell_of r c) else PyNaN)
                    else None) (rows df)) dfs = map rows dfs"
    by (rule map_cong [OF refl]) (rule same)
  show ?thesis unfolding pd_concat_def Let_def by (simp only: m table.simps)
qed

text \<open>
  Claim C7. For every folder that can be listed, \<open>load_odd_data\<close> returns the
  concatenation of the frames of the files that parse and of no other, and prints one
  report for each file that does not parse; no failure of a file ends the load, and when
  no file parses the result is \<open>None\<close>. The concatenation has the columns of all those
  frames, each once. Its rows are, one for one and in this order, the rows of the frames
  in the order in which the folder lists the files and, within a file, in the order of
  its rows. Each of them carries its row: the cells of that row, an integer as the float
  of the same value where pandas stores the column as floats, and \<^verbatim>\<open>nan\<close> in the
  columns that only other files have. When all frames have the same columns and pandas
  stores none of them as floats, the rows are the rows of the frames unchanged.
\<close>

theorem load_odd_data_skips_bad_files:
  fixes w folder names cols
  defines "parsed \<equiv> parsed_frames w folder names"
  defines "result \<equiv> pd_concat (float_column w) parsed"
  assumes "listdir w folder = Inr names"
  shows "load_odd_data w folder =
           (Inr (if parsed = [] then None else Some result), parse_failures w folder names)
      \<and> set (columns result) = (\<Union>df\<in>set parsed. set (columns df))
      \<and> distinct (columns result)
      \<and> list_all2 (carries (float_column w parsed) (columns result)) (row_sources parsed)
           (rows result)
      \<and> (list_all (\<lambda>df. set (columns df) = set cols
                      \<and> list_all (\<lambda>r. dom r = set cols) (rows df)) parsed
          \<and> list_all (\<lambda>c. \<not> float_column w parsed c) cols \<longrightarrow>
          rows result = concat (map rows parsed))"
proof -
  have "load_odd_data w folder =
      (Inr (if parsed = [] then None else Some result), parse_failures w folder names)"
    unfolding parsed_def result_def using assms(3) by (rule load_odd_data_eq)
  moreover have "set (columns result) = (\<Union>df\<in>set parsed. set (columns df))"
    unfolding result_def by (rule set_columns_pd_concat)
  moreover have "distinct (columns result)"
    unfolding result_def by (simp add: columns_pd_concat distinct_first_seen)
  moreover have "list_all2 (carries (float_column w parsed) (columns result))
      (row_sources parsed) (rows result)"
    unfolding result_def by (rule rows_pd_concat_carries)
  moreover have "rows result = concat (map rows parsed)"
    if "list_all (\<lambda>df. set (columns df) = set cols
                      \<and> list_all (\<lambda>r. dom r = set cols) (rows df)) parsed
          \<and> list_all (\<lambda>c. \<not> float_column w parsed c) cols"
    unfolding result_def using that by (intro rows_pd_concat_same_schema [of cols]) simp_all
  ultimately show ?thesis by blast
qed

lemma example_parsed: "parsed_frames example_world ''raw''
    [''a.xlsx'', ''b.xlsx'', ''notes.txt'', ''c.xlsx''] = [sheet_a, sheet_c]"
  by (simp add: parsed_frames_def example_world_def suffix_to_prefix)

lemma example_failures: "parse_failures example_world ''raw''
    [''a.xlsx'', ''b.xlsx'', ''notes.txt'', ''c.xlsx''] =
      [Error_reading ''b.xlsx'' ''File is not a zip file'']"
  by (simp add: parse_failures_def example_world_def suffix_to_prefix)

lemma dom_sheet_row: "dom (sheet_row p d s v) = set sheet_columns"
  by (auto simp: sheet_row_def sheet_columns_def)

lemma example_schema:
  "list_all (\<lambda>df. set (columns df) = set sheet_columns
      \<and> list_all (\<lambda>r. dom r = set sheet_columns) (rows df)) [sheet_a, sheet_c]"
  by (simp add: sheet_a_def sheet_c_def dom_sheet_row)

lemma example_no_floats:
  "list_all (\<lambda>c. \<not> float_column example_world dfs c) cols"
  by (simp add: example_world_def list_all_iff)

lemma float_str_7: "float_str 7 = ''7.0''"
  by (simp add: float_str_def nearest_double_def dec_nat.simps digit_char_def)

lemma widening_parsed: "parsed_frames widening_world ''raw''
    [''bad.xlsx'', ''m.xlsx'', ''n.xlsx''] = [sheet_m, sheet_n]"
  by (simp add: parsed_frames_def widening_world_def suffix_to_prefix)

lemma widening_failures: "parse_failures widening_world ''raw''
    [''bad.xlsx'', ''m.xlsx'', ''n.xlsx''] =
      [Error_reading ''bad.xlsx'' ''File is not a zip file'']"
  by (simp add: parse_failures_def widening_world_def suffix_to_prefix)

theorem load_odd_data_skips_bad_files_witness:
  "listdir example_world ''raw'' = Inr [''a.xlsx'', ''b.xlsx'', ''notes.txt'', ''c.xlsx'']
   \<and> read_excel example_world (''raw'', ''b.xlsx'') = Inl ''File is not a zip file''
   \<and> load_odd_data example_world ''raw'' =
        (Inr (Some (pd_concat (float_column example_world) [sheet_a, sheet_c])),
         [Error_reading ''b.xlsx'' ''File is not a zip file''])
   \<and> rows (pd_concat (float_column example_world) [sheet_a, sheet_c])
       = rows sheet_a @ rows sheet_c
   \<and> listdir widening_world ''raw'' = Inr [''bad.xlsx'', ''m.xlsx'', ''n.xlsx'']
   \<and> load_odd_data widening_world ''raw'' =
        (Inr (Some (pd_concat (float_column widening_world) [sheet_m, sheet_n])),
         [Error_reading ''bad.xlsx'' ''File is not a zip file''])
   \<and> column_values ''CNT_VOTOS'' (pd_concat (float_column widening_world) [sheet_m, sheet_n])
       = [Some (PyFloat ''7.0''), Some PyNaN]
   \<and> column_values ''CIRCUITO'' (pd_concat (float_column widening_world) [sheet_m, sheet_n])
       = [Some (PyInt 4), Some (PyInt 9)]
   \<and> column_values ''CONVOCATORIA'' (pd_concat (float_column widening_world) [sheet_m, sheet_n])
       = [Some (PyStr ''Partido_Nacional''), Some PyNaN]
   \<and> column_values ''PARTIDO'' (pd_concat (float_column widening_world) [sheet_m, sheet_n])
       = [Some PyNaN, Some (PyStr ''Partido Nacional'')]"
proof -
  have l: "listdir example_world ''raw'' = Inr [''a.xlsx'', ''b.xlsx'', ''notes.txt'', ''c.xlsx'']"
    by (simp add: example_world_def)
  have b: "read_excel example_world (''raw'', ''b.xlsx'') = Inl ''File is not a zip file''"
    by (simp add: example_world_def)
  note t = load_odd_data_skips_bad_files [OF l, of sheet_columns,
      unfolded example_parsed example_failures]
  from t [THEN conjunct1] have r: "load_odd_data example_world ''raw'' =
        (Inr (Some (pd_concat (float_column example_world) [sheet_a, sheet_c])),
         [Error_reading ''b.xlsx'' ''File is not a zip file''])"
    by simp
  from t example_schema example_no_floats
  have "rows (pd_concat (float_column example_world) [sheet_a, sheet_c])
      = concat (map rows [sheet_a, sheet_c])"
    by blast
  then have e: "rows (pd_concat (float_column example_world) [sheet_a, sheet_c])
      = rows sheet_a @ rows sheet_c"
    by simp
  let ?T = "pd_concat (float_column widening_world) [sheet_m, sheet_n]"
  have l2: "listdir widening_world ''raw'' = Inr [''bad.xlsx'', ''m.xlsx'', ''n.xlsx'']"
    by (simp add: widening_world_def)
  note u = load_odd_data_skips_bad_files [OF l2, of sheet_columns,
      unfolded widening_parsed widening_failures]
  from u [THEN conjunct1] have r2: "load_odd_data widening_world ''raw'' =
        (Inr (Some ?T), [Error_reading ''bad.xlsx'' ''File is not a zip file''])"
    by simp
  from u have "list_all2 (carries (float_column widening_world [sheet_m, sheet_n]) (columns ?T))
      (row_sources [sheet_m, sheet_n]) (rows ?T)"
    by blast
  then obtain r1 r2 where rows: "rows ?T = [r1, r2]"
    and c1: "carries (float_column widening_world [sheet_m, sheet_n]) (columns ?T)
        (sheet_m, hd (rows sheet_m)) r1"
    and c2: "carries (float_column widening_world [sheet_m, sheet_n]) (columns ?T)
        (sheet_n, hd (rows sheet_n)) r2"
    by (auto simp: row_sources_def sheet_m_def sheet_n_def list_all2_Cons1)
  have cols: "columns ?T = sheet_columns @ [''PARTIDO'']"
    by (simp add: columns_pd_concat first_seen_def sheet_m_def sheet_n_def sheet_columns_def)
  have fc: "float_column widening_world dfs c = (c = ''CNT_VOTOS'')" for dfs c
    by (simp add: widening_world_def)
  note c1' = c1 [unfolded carries_def cols fc, rule_format]
  note c2' = c2 [unfolded carries_def cols fc, rule_format]
  note defs = sheet_m_def sheet_n_def sheet_columns_def sheet_row_def cell_of_def
  have v1: "r1 ''CNT_VOTOS'' = Some (PyFloat ''7.0'')"
    using c1' [of "''CNT_VOTOS''"] by (simp add: defs float_str_7)
  have v2: "r2 ''CNT_VOTOS'' = Some PyNaN"
    using c2' [of "''CNT_VOTOS''"] by (simp add: defs)
  have i1: "r1 ''CIRCUITO'' = Some (PyInt 4)"
    using c1' [of "''CIRCUITO''"] by (simp add: defs)
  have i2: "r2 ''CIRCUITO'' = Some (PyInt 9)"
    using c2' [of "''CIRCUITO''"] by (simp add: defs)
  have o1: "r1 ''CONVOCATORIA'' = Some (PyStr ''Partido_Nacional'')"
    using c1' [of "''CONVOCATORIA''"] by (simp add: defs)
  have o2: "r2 ''CONVOCATORIA'' = Some PyNaN"
    using c2' [of "''CONVOCATORIA''"] by (simp add: defs)
  have p1: "r1 ''PARTIDO'' = Some PyNaN"
    using c1' [of "''PARTIDO''"] by (simp add: defs)
  have p2: "r2 ''PARTIDO'' = Some (PyStr ''Partido Nacional'')"
    using c2' [of "''PARTIDO''"] by (simp add: defs)
  have v: "column_values ''CNT_VOTOS'' ?T = [Some (PyFloat ''7.0''), Some PyNaN]"
    by (simp add: column_values_def rows v1 v2)
  have ci: "column_values ''CIRCUITO'' ?T = [Some (PyInt 4), Some (PyInt 9)]"
    by (simp add: column_values_def rows i1 i2)
  have co: "column_values ''CONVOCATORIA'' ?T = [Some (PyStr ''Partido_Nacional''), Some PyNaN]"
    by (simp add: column_values_def rows o1 o2)
  have pa: "column_values ''PARTIDO'' ?T = [Some PyNaN, Some (PyStr ''Partido Nacional'')]"
    by (simp add: column_values_def rows p1 p2)
  from l b r e l2 r2 v ci co pa show ?thesis by blast
qed

section \<open>The example world\<close>

lemma py_lower_Canelones: "py_lower ''Canelones'' = ''canelones''"
  by code_simp

lemma py_lower_Montevideo: "py_lower ''Montevideo'' = ''montevideo''"
  by code_simp

lemma py_lower_Rivera: "py_lower ''Rivera'' = ''rivera''"
  by code_simp

lemma example_combined:
  "pd_concat (float_column example_world) [sheet_a, sheet_c]
     = \<lparr>columns = sheet_columns, rows = rows sheet_a @ rows sheet_c\<rparr>"
proof (rule table.equality)
  show "columns (pd_concat (float_column example_world) [sheet_a, sheet_c])
      = columns \<lparr>columns = sheet_columns, rows = rows sheet_a @ rows sheet_c\<rparr>"
    by (simp add: columns_pd_concat first_seen_def sheet_a_def sheet_c_def sheet_columns_def)
  from rows_pd_concat_same_schema [OF example_schema example_no_floats]
  show "rows (pd_concat (float_column example_world) [sheet_a, sheet_c])
      = rows \<lparr>columns = sheet_columns, rows = rows sheet_a @ rows sheet_c\<rparr>"
    by simp
qed simp

lemma example_load:
  "load_odd_data example_world ''raw'' =
     (Inr (Some \<lparr>columns = sheet_columns, rows = rows sheet_a @ rows sheet_c\<rparr>),
      [Error_reading ''b.xlsx'' ''File is not a zip file''])"
proof -
  have "listdir example_world ''raw'' = Inr [''a.xlsx'', ''b.xlsx'', ''notes.txt'', ''c.xlsx'']"
    by (simp add: example_world_def)
  from load_odd_data_eq [OF this] show ?thesis
    by (simp add: example_parsed example_failures example_combined)
qed

section \<open>The filter stage\<close>

lemma filter_department_Inr:
  assumes "filter_department combined d = Inr kept"
  shows "columns kept = columns combined
      \<and> rows kept = filter (\<lambda>r. r ''DEPTO'' = Some (PyStr d)) (rows combined)"
  using assms by (auto simp: filter_department_def split: if_splits)

lemma written_starts_with_filtered:
  assumes "load_odd_data w folder = (Inr (Some combined), out)"
    and "filter_department combined d = Inr kept"
  shows "\<exists>rest. written (process_odd_data w d folder od md fd) = (filtered_path od d, kept) # rest"
  using assms
  by (simp add: process_odd_data_def Let_def split: sum.splits)

text \<open>
  Claim C3. For every combined table with a \<open>DEPTO\<close> column and every department name
  \<open>d\<close>, the filter stage returns the rows whose \<open>DEPTO\<close> cell is exactly the string
  \<open>d\<close>, each row as it was and in the order it had, under the same columns. When no
  row matches the result is the table without rows, not an error, and in every case the
  stage goes on to write its result as the filtered file.
\<close>

theorem filter_department_exact:
  assumes "''DEPTO'' \<in> set (columns combined)"
  shows "\<exists>kept. filter_department combined d = Inr kept
      \<and> columns kept = columns combined
      \<and> rows kept = filter (\<lambda>r. r ''DEPTO'' = Some (PyStr d)) (rows combined)
      \<and> subseq (rows kept) (rows combined)
      \<and> (list_all (\<lambda>r. r ''DEPTO'' \<noteq> Some (PyStr d)) (rows combined) \<longrightarrow> rows kept = [])
      \<and> (load_odd_data w folder = (Inr (Some combined), out) \<longrightarrow>
           (\<exists>rest. written (process_odd_data w d folder od md fd)
                     = (filtered_path od d, kept) # rest))"
proof -
  from assms obtain kept where k: "filter_department combined d = Inr kept"
    by (simp add: filter_department_def)
  note r = filter_department_Inr [OF k]
  from r have "subseq (rows kept) (rows combined)" by simp
  moreover from r have "rows kept = []"
    if "list_all (\<lambda>r. r ''DEPTO'' \<noteq> Some (PyStr d)) (rows combined)"
    using that by (simp add: list_all_iff filter_empty_conv)
  moreover have "\<exists>rest. written (process_odd_data w d folder od md fd)
      = (filtered_path od d, kept) # rest"
    if "load_odd_data w folder = (Inr (Some combined), out)"
    using that k by (rule written_starts_with_filtered)
  ultimately show ?thesis using k r by blast
qed

theorem filter_department_exact_witness:
  "''DEPTO'' \<in> set (columns \<lparr>columns = sheet_columns, rows = rows sheet_a @ rows sheet_c\<rparr>)
   \<and> (\<exists>kept. filter_department \<lparr>columns = sheet_columns, rows = rows sheet_a @ rows sheet_c\<rparr>
                ''Canelones'' = Inr kept
          \<and> rows kept = [sheet_row ''Frente_Amplio_-_Lista_711'' ''Canelones'' ''CAA CAB'' 7,
                          sheet_row ''Asamblea_Popular'' ''Canelones'' ''CAA ZZZ'' 1]
          \<and> (\<exists>rest. written (process_odd_data example_world ''Canelones'' ''raw'' ''out'' ''maps''
                               ''final'')
                     = ((''out'', ''canelones_odd_filtered.csv''), kept) # rest))
   \<and> (\<exists>kept. filter_department \<lparr>columns = sheet_columns, rows = rows sheet_a @ rows sheet_c\<rparr>
                ''Rivera'' = Inr kept
          \<and> rows kept = []
          \<and> (\<exists>rest. written (process_odd_data example_world ''Rivera'' ''raw'' ''out'' ''maps''
                               ''final'')
                     = ((''out'', ''rivera_odd_filtered.csv''), kept) # rest))"
proof -
  let ?t = "\<lparr>columns = sheet_columns, rows = rows sheet_a @ rows sheet_c\<rparr>"
  have h: "''DEPTO'' \<in> set (columns ?t)"
    by (simp add: sheet_columns_def)
  have f1: "filter (\<lambda>r. r ''DEPTO'' = Some (PyStr ''Canelones'')) (rows ?t)
      = [sheet_row ''Frente_Amplio_-_Lista_711'' ''Canelones'' ''CAA CAB'' 7,
         sheet_row ''Asamblea_Popular'' ''Canelones'' ''CAA ZZZ'' 1]"
    by (simp add: sheet_a_def sheet_c_def sheet_row_def)
  have f2: "list_all (\<lambda>r. r ''DEPTO'' \<noteq> Some (PyStr ''Rivera'')) (rows ?t)"
    by (simp add: sheet_a_def sheet_c_def sheet_row_def)
  from filter_department_exact [OF h, of "''Canelones''" example_world "''raw''" _ "''out''"
      "''maps''" "''final''"] example_load f1
  have a: "\<exists>kept. filter_department ?t ''Canelones'' = Inr kept
          \<and> rows kept = [sheet_row ''Frente_Amplio_-_Lista_711'' ''Canelones'' ''CAA CAB'' 7,
                          sheet_row ''Asamblea_Popular'' ''Canelones'' ''CAA ZZZ'' 1]
          \<and> (\<exists>rest. written (process_odd_data example_world ''Canelones'' ''raw'' ''out'' ''maps''
                               ''final'')
                     = ((''out'', ''canelones_odd_filtered.csv''), kept) # rest)"
    unfolding filtered_path_def py_lower_Canelones by (metis append_Cons append_Nil)
  from filter_department_exact [OF h, of "''Rivera''" example_world "''raw''" _ "''out''"
      "''maps''" "''final''"] example_load f2
  have b: "\<exists>kept. filter_department ?t ''Rivera'' = Inr kept
          \<and> rows kept = []
          \<and> (\<exists>rest. written (process_odd_data example_world ''Rivera'' ''raw'' ''out'' ''maps''
                               ''final'')
                     = ((''out'', ''rivera_odd_filtered.csv''), kept) # rest)"
    unfolding filtered_path_def py_lower_Rivera by (metis append_Cons append_Nil)
  from h a b show ?thesis by blast
qed

section \<open>Nothing loaded\<close>

text \<open>
  Claim C5, as stated, fails: a sheet that parses and has no row of data is a frame, so
  the run goes past the check, filters, and writes every file of the pipeline, each with
  a header and no rows.
\<close>

theorem process_odd_data_header_only:
  "listdir header_only_world ''raw'' = Inr [''a.xlsx'']
   \<and> map rows (parsed_frames header_only_world ''raw'' [''a.xlsx'']) = [[]]
   \<and> outcome (process_odd_data header_only_world ''Canelones'' ''raw'' ''out'' ''maps'' ''final'')
       = Returned
   \<and> map fst (written (process_odd_data header_only_world ''Canelones'' ''raw'' ''out'' ''maps''
                         ''final''))
       = [(''out'', ''canelones_odd_filtered.csv''), (''out'', ''canelones_odd_cleaned.csv''),
          (''out'', ''canelones_odd_no_acto.csv''), (''final'', ''canelones_odd_final.csv'')]
   \<and> No_valid_data \<notin> set (printed (process_odd_data header_only_world ''Canelones'' ''raw''
                                       ''out'' ''maps'' ''final''))"
proof -
  let ?t = "\<lparr>columns = sheet_columns, rows = []\<rparr>"
  have l: "listdir header_only_world ''raw'' = Inr [''a.xlsx'']"
    by (simp add: header_only_world_def)
  have p: "parsed_frames header_only_world ''raw'' [''a.xlsx''] = [?t]"
    by (simp add: parsed_frames_def header_only_world_def suffix_to_prefix)
  have f: "parse_failures header_only_world ''raw'' [''a.xlsx''] = []"
    by (simp add: parse_failures_def header_only_world_def suffix_to_prefix)
  have c: "pd_concat (float_column header_only_world) [?t] = ?t"
    by (simp add: pd_concat_def Let_def first_seen_def sheet_columns_def)
  have ld: "load_odd_data header_only_world ''raw'' = (Inr (Some ?t), [])"
    using load_odd_data_eq [OF l] by (simp add: p f c)
  have lj: "load_json header_only_world (mapping_path ''maps'' ''Canelones'')
      = Inr [''CAA'' \<mapsto> ''Canelones'']"
    by (simp add: header_only_world_def)
  have run: "process_odd_data header_only_world ''Canelones'' ''raw'' ''out'' ''maps'' ''final'' =
      \<lparr>outcome = Returned,
       written =
         [((''out'', ''canelones_odd_filtered.csv''), ?t),
          ((''out'', ''canelones_odd_cleaned.csv''),
           \<lparr>columns = [''ACTO'', ''PARTIDO'', ''DEPTO'', ''CIRCUITO'', ''SERIES'', ''ESCRUTINIO'',
                       ''HOJA'', ''CNT_VOTOS''], rows = []\<rparr>),
          ((''out'', ''canelones_odd_no_acto.csv''),
           \<lparr>columns = [''PARTIDO'', ''DEPTO'', ''CIRCUITO'', ''SERIES'', ''ESCRUTINIO'', ''HOJA'',
                       ''CNT_VOTOS''], rows = []\<rparr>),
          ((''final'', ''canelones_odd_final.csv''),
           \<lparr>columns = [''PARTIDO'', ''DEPTO'', ''CIRCUITO'', ''SERIES'', ''ESCRUTINIO'', ''HOJA'',
                       ''CNT_VOTOS'', ''ZONA''], rows = []\<rparr>)],
       printed = report ?t
           \<lparr>columns = [''PARTIDO'', ''DEPTO'', ''CIRCUITO'', ''SERIES'', ''ESCRUTINIO'', ''HOJA'',
                       ''CNT_VOTOS'', ''ZONA''], rows = []\<rparr>
           ''Canelones'' ''out'' ''final''\<rparr>"
    by (simp add: process_odd_data_def ld lj filter_department_def clean_stage_def
        rename_column_def drop_column_def zone_stage_def assign_column_def sheet_columns_def
        filtered_path_def cleaned_path_def no_acto_path_def final_path_def
        py_lower_Canelones)
  have "No_valid_data \<notin> set (printed (process_odd_data header_only_world ''Canelones'' ''raw''
      ''out'' ''maps'' ''final''))"
    unfolding run by (simp add: report_def)
  with l p show ?thesis unfolding run by simp
qed

text \<open>
  Claim C5, amended. If no file of the input folder parses into a frame (in particular
  if the folder is empty, or holds no file whose name ends in \<open>.xlsx\<close>), the run prints
  the reports of the files that failed and then that no valid data was found, returns
  before the filter stage, and writes no file.
\<close>

theorem process_odd_data_no_frames:
  assumes "listdir w folder = Inr names" and "parsed_frames w folder names = []"
  shows "process_odd_data w d folder od md fd =
           \<lparr>outcome = Returned, written = [],
            printed = parse_failures w folder names @ [No_valid_data]\<rparr>"
  using load_odd_data_eq [OF assms(1)] assms(2)
  by (simp add: process_odd_data_def)

theorem process_odd_data_no_frames_witness:
  "listdir example_world ''empty'' = Inr []
   \<and> parsed_frames example_world ''empty'' [] = []
   \<and> process_odd_data example_world ''Canelones'' ''empty'' ''out'' ''maps'' ''final'' =
        \<lparr>outcome = Returned, written = [], printed = [No_valid_data]\<rparr>
   \<and> listdir example_world ''broken'' = Inr [''b.xlsx'', ''notes.txt'']
   \<and> parsed_frames example_world ''broken'' [''b.xlsx'', ''notes.txt''] = []
   \<and> process_odd_data example_world ''Canelones'' ''broken'' ''out'' ''maps'' ''final'' =
        \<lparr>outcome = Returned, written = [],
         printed = [Error_reading ''b.xlsx'' ''File is not a zip file'', No_valid_data]\<rparr>"
proof -
  have l1: "listdir example_world ''empty'' = Inr []"
    by (simp add: example_world_def)
  have p1: "parsed_frames example_world ''empty'' [] = []"
    by (simp add: parsed_frames_def)
  have l2: "listdir example_world ''broken'' = Inr [''b.xlsx'', ''notes.txt'']"
    by (simp add: example_world_def)
  have p2: "parsed_frames example_world ''broken'' [''b.xlsx'', ''notes.txt''] = []"
    by (simp add: parsed_frames_def example_world_def suffix_to_prefix)
  have f1: "parse_failures example_world ''empty'' [] = []"
    by (simp add: parse_failures_def)
  have f2: "parse_failures example_world ''broken'' [''b.xlsx'', ''notes.txt'']
      = [Error_reading ''b.xlsx'' ''File is not a zip file'']"
    by (simp add: parse_failures_def example_world_def suffix_to_prefix)
  from process_odd_data_no_frames [OF l1 p1, of "''Canelones''" "''out''" "''maps''" "''final''"]
    process_odd_data_no_frames [OF l2 p2, of "''Canelones''" "''out''" "''maps''" "''final''"]
    l1 p1 l2 p2
  show ?thesis by (simp add: f1 f2)
qed

section \<open>The mapping file\<close>

lemma final_path_differs:
  "final_path fd d \<noteq> filtered_path od d"
  "final_path fd d \<noteq> cleaned_path od d"
  "final_path fd d \<noteq> no_acto_path od d"
  by (simp_all add: final_path_def filtered_path_def cleaned_path_def no_acto_path_def)

lemma no_final_without_mapping:
  assumes "load_json w (mapping_path md d) = Inl e"
  shows "final_path fd d \<notin> fst ` set (written (process_odd_data w d folder od md fd))"
  using assms
  by (auto simp: process_odd_data_def Let_def final_path_differs
      split: sum.splits option.splits prod.splits)

lemma stops_at_mapping:
  assumes "load_json w (mapping_path md d) = Inl e"
    and "load_odd_data w folder = (Inr (Some combined), out)"
    and "filter_department combined d = Inr filtered"
    and "clean_stage filtered = Inr cleaned"
  shows "process_odd_data w d folder od md fd =
      \<lparr>outcome = Raised e,
       written = [(filtered_path od d, filtered), (cleaned_path od d, cleaned)]
         @ (if ''ACTO'' \<in> set (columns cleaned)
            then [(no_acto_path od d, drop_column ''ACTO'' cleaned)] else []),
       printed = out\<rparr>"
  using assms by (simp add: process_odd_data_def Let_def)

text \<open>
  Claim C6. If opening or reading the mapping file of the department raises, no run
  writes the final file; and a run that has loaded, filtered and cleaned its data ends
  with that exception before any zone is computed, having written the filtered and the
  cleaned file, and the file without \<open>ACTO\<close> when that column was there, and nothing
  after them.
\<close>

theorem process_odd_data_missing_mapping:
  assumes "load_json w (mapping_path md d) = Inl e"
  shows "final_path fd d \<notin> fst ` set (written (process_odd_data w d folder od md fd))
      \<and> (load_odd_data w folder = (Inr (Some combined), out)
           \<and> filter_department combined d = Inr filtered
           \<and> clean_stage filtered = Inr cleaned \<longrightarrow>
          process_odd_data w d folder od md fd =
            \<lparr>outcome = Raised e,
             written = [(filtered_path od d, filtered), (cleaned_path od d, cleaned)]
               @ (if ''ACTO'' \<in> set (columns cleaned)
                  then [(no_acto_path od d, drop_column ''ACTO'' cleaned)] else []),
             printed = out\<rparr>)"
  using no_final_without_mapping [OF assms] stops_at_mapping [OF assms] by blast

lemma example_filter_Montevideo:
  "filter_department \<lparr>columns = sheet_columns, rows = rows sheet_a @ rows sheet_c\<rparr> ''Montevideo''
     = Inr \<lparr>columns = sheet_columns,
            rows = [sheet_row ''Partido_Nacional'' ''Montevideo'' ''BAA'' 5]\<rparr>"
  by (simp add: filter_department_def sheet_columns_def sheet_a_def sheet_c_def sheet_row_def)

lemma example_clean_Montevideo:
  "\<exists>cleaned. clean_stage \<lparr>columns = sheet_columns,
        rows = [sheet_row ''Partido_Nacional'' ''Montevideo'' ''BAA'' 5]\<rparr> = Inr cleaned
     \<and> columns cleaned = [''ACTO'', ''PARTIDO'', ''DEPTO'', ''CIRCUITO'', ''SERIES'', ''ESCRUTINIO'',
         ''HOJA'', ''CNT_VOTOS'']
     \<and> column_values ''PARTIDO'' cleaned = [Some (PyStr ''Partido Nacional'')]"
  by (simp add: clean_stage_def rename_column_def sheet_columns_def sheet_row_def cell_of_def
      clean_party_name_def py_split_def py_first_def column_values_def)

theorem process_odd_data_missing_mapping_witness:
  "load_json example_world (mapping_path ''maps'' ''Montevideo'') = Inl FileNotFoundError
   \<and> outcome (process_odd_data example_world ''Montevideo'' ''raw'' ''out'' ''maps'' ''final'')
       = Raised FileNotFoundError
   \<and> map fst (written (process_odd_data example_world ''Montevideo'' ''raw'' ''out'' ''maps''
                         ''final''))
       = [(''out'', ''montevideo_odd_filtered.csv''), (''out'', ''montevideo_odd_cleaned.csv''),
          (''out'', ''montevideo_odd_no_acto.csv'')]
   \<and> (''final'', ''montevideo_odd_final.csv'')
       \<notin> fst ` set (written (process_odd_data example_world ''Montevideo'' ''raw'' ''out'' ''maps''
                                 ''final''))"
proof -
  have h: "load_json example_world (mapping_path ''maps'' ''Montevideo'') = Inl FileNotFoundError"
    by (simp add: example_world_def mapping_path_def py_lower_Montevideo)
  obtain cleaned where c: "clean_stage \<lparr>columns = sheet_columns,
        rows = [sheet_row ''Partido_Nacional'' ''Montevideo'' ''BAA'' 5]\<rparr> = Inr cleaned"
    and cc: "columns cleaned = [''ACTO'', ''PARTIDO'', ''DEPTO'', ''CIRCUITO'', ''SERIES'',
        ''ESCRUTINIO'', ''HOJA'', ''CNT_VOTOS'']"
    using example_clean_Montevideo by blast
  note t = process_odd_data_missing_mapping [OF h, of "''final''" "''raw''" "''out''"]
  from t example_load example_filter_Montevideo c
  have run: "process_odd_data example_world ''Montevideo'' ''raw'' ''out'' ''maps'' ''final'' =
      \<lparr>outcome = Raised FileNotFoundError,
       written = [(filtered_path ''out'' ''Montevideo'',
                   \<lparr>columns = sheet_columns,
                    rows = [sheet_row ''Partido_Nacional'' ''Montevideo'' ''BAA'' 5]\<rparr>),
                  (cleaned_path ''out'' ''Montevideo'', cleaned)]
         @ (if ''ACTO'' \<in> set (columns cleaned)
            then [(no_acto_path ''out'' ''Montevideo'', drop_column ''ACTO'' cleaned)] else []),
       printed = [Error_reading ''b.xlsx'' ''File is not a zip file'']\<rparr>"
    by blast
  from t have nf: "final_path ''final'' ''Montevideo''
      \<notin> fst ` set (written (process_odd_data example_world ''Montevideo'' ''raw'' ''out'' ''maps''
                                ''final''))"
    by blast
  have o: "outcome (process_odd_data example_world ''Montevideo'' ''raw'' ''out'' ''maps'' ''final'')
       = Raised FileNotFoundError"
    unfolding run by simp
  have m: "map fst (written (process_odd_data example_world ''Montevideo'' ''raw'' ''out'' ''maps''
                         ''final''))
       = [(''out'', ''montevideo_odd_filtered.csv''), (''out'', ''montevideo_odd_cleaned.csv''),
          (''out'', ''montevideo_odd_no_acto.csv'')]"
    unfolding run
    by (simp add: cc filtered_path_def cleaned_path_def no_acto_path_def py_lower_Montevideo)
  from nf have "(''final'', ''montevideo_odd_final.csv'')
       \<notin> fst ` set (written (process_odd_data example_world ''Montevideo'' ''raw'' ''out'' ''maps''
                                 ''final''))"
    by (simp add: final_path_def py_lower_Montevideo)
  with h o m show ?thesis by blast
qed

section \<open>Fields that pass through\<close>

lemma apply_rows_other:
  "apply_rows f col rs = Inr rs' \<Longrightarrow> c \<noteq> col \<Longrightarrow> map (\<lambda>r. r c) rs' = map (\<lambda>r. r c) rs"
  by (induction rs arbitrary: rs') (auto split: sum.splits)

lemma rename_column_other:
  assumes "c \<noteq> old" and "c \<noteq> new"
  shows "column_values c (rename_column old new df) = column_values c df
      \<and> (c \<in> set (columns (rename_column old new df)) \<longleftrightarrow> c \<in> set (columns df))"
  using assms by (auto simp: rename_column_def column_values_def)

lemma clean_stage_other:
  assumes "clean_stage df = Inr cleaned" and "c \<noteq> ''CONVOCATORIA''" and "c \<noteq> ''PARTIDO''"
  shows "column_values c cleaned = column_values c df
      \<and> (c \<in> set (columns cleaned) \<longleftrightarrow> c \<in> set (columns df))"
proof (cases "''CONVOCATORIA'' \<in> set (columns df) \<and> ''PARTIDO'' \<in> set (columns df)")
  case True
  with assms(1) have "cleaned = rename_column ''CONVOCATORIA'' ''PARTIDO'' df"
    by (simp add: clean_stage_def split: if_splits)
  with rename_column_other [OF assms(2,3)] show ?thesis by simp
next
  case False
  let ?renamed = "rename_column ''CONVOCATORIA'' ''PARTIDO'' df"
  from assms(1) False
  have "(if ''PARTIDO'' \<notin> set (columns ?renamed) then Inl KeyError
         else (case apply_rows (\<lambda>v. map_sum id PyStr (clean_party_name v)) ''PARTIDO''
                 (rows ?renamed) of
                 Inl e \<Rightarrow> Inl e
               | Inr rs \<Rightarrow> Inr (?renamed\<lparr>rows := rs\<rparr>))) = Inr cleaned"
    by (simp add: clean_stage_def Let_def)
  then obtain rs
    where rs: "apply_rows (\<lambda>v. map_sum id PyStr (clean_party_name v)) ''PARTIDO'' (rows ?renamed)
        = Inr rs"
      and cleaned: "cleaned = ?renamed\<lparr>rows := rs\<rparr>"
    by (cases "apply_rows (\<lambda>v. map_sum id PyStr (clean_party_name v)) ''PARTIDO''
          (rows ?renamed)") (auto split: if_splits)
  from apply_rows_other [OF rs assms(3)]
  have "map (\<lambda>r. r c) rs = map (\<lambda>r. r c) (rows ?renamed)" .
  then have "column_values c cleaned = column_values c ?renamed"
    by (simp add: column_values_def cleaned)
  moreover have "c \<in> set (columns cleaned) \<longleftrightarrow> c \<in> set (columns ?renamed)"
    by (simp add: cleaned)
  ultimately show ?thesis using rename_column_other [OF assms(2,3), of df] by simp
qed

lemma drop_column_other:
  "c \<noteq> a \<Longrightarrow> column_values c (drop_column a df) = column_values c df
      \<and> (c \<in> set (columns (drop_column a df)) \<longleftrightarrow> c \<in> set (columns df))"
  by (simp add: drop_column_def column_values_def)

lemma zone_stage_other:
  assumes "zone_stage iter m df = Inr final" and "c \<noteq> ''ZONA''"
  shows "column_values c final = column_values c df
      \<and> (c \<in> set (columns final) \<longleftrightarrow> c \<in> set (columns df))"
  using assms
  by (auto simp: zone_stage_def assign_column_def column_values_def split: if_splits)

lemma zone_stage_zone:
  assumes "zone_stage iter m df = Inr final"
  shows "''ZONA'' \<in> set (columns final)
      \<and> column_values ''ZONA'' final =
          map (\<lambda>s. Some (PyStr (get_zone iter (case s of None \<Rightarrow> PyNaN | Some v \<Rightarrow> v) m)))
            (column_values ''SERIES'' df)"
  using assms
  by (auto simp: zone_stage_def assign_column_def column_values_def cell_of_def comp_def
      split: if_splits)

lemma returned_run:
  assumes "load_odd_data w folder = (Inr (Some combined), out)"
    and "outcome (process_odd_data w d folder od md fd) = Returned"
  shows "\<exists>filtered cleaned m final rest.
      filter_department combined d = Inr filtered
      \<and> clean_stage filtered = Inr cleaned
      \<and> load_json w (mapping_path md d) = Inr m
      \<and> zone_stage (iterate_set w) m
           (if ''ACTO'' \<in> set (columns cleaned) then drop_column ''ACTO'' cleaned else cleaned)
          = Inr final
      \<and> written (process_odd_data w d folder od md fd) = rest @ [(final_path fd d, final)]"
proof -
  obtain filtered where f: "filter_department combined d = Inr filtered"
  proof (cases "filter_department combined d")
    case (Inl e)
    with assms show ?thesis by (simp add: process_odd_data_def)
  next
    case (Inr x)
    then show ?thesis using that by blast
  qed
  obtain cleaned where c: "clean_stage filtered = Inr cleaned"
  proof (cases "clean_stage filtered")
    case (Inl e)
    with assms f show ?thesis by (simp add: process_odd_data_def)
  next
    case (Inr x)
    then show ?thesis using that by blast
  qed
  obtain m where m: "load_json w (mapping_path md d) = Inr m"
  proof (cases "load_json w (mapping_path md d)")
    case (Inl e)
    with assms f c show ?thesis by (simp add: process_odd_data_def Let_def)
  next
    case (Inr x)
    then show ?thesis using that by blast
  qed
  let ?no_acto = "if ''ACTO'' \<in> set (columns cleaned) then drop_column ''ACTO'' cleaned else cleaned"
  obtain final where z: "zone_stage (iterate_set w) m ?no_acto = Inr final"
  proof (cases "zone_stage (iterate_set w) m ?no_acto")
    case (Inl e)
    with assms f c m show ?thesis by (simp add: process_odd_data_def Let_def)
  next
    case (Inr x)
    then show ?thesis using that by blast
  qed
  from assms(1) f c m z
  have "\<exists>rest. written (process_odd_data w d folder od md fd) = rest @ [(final_path fd d, final)]"
    by (simp add: process_odd_data_def Let_def)
  with f c m z show ?thesis by blast
qed

lemma passes_through:
  assumes "filter_department combined d = Inr filtered"
    and "clean_stage filtered = Inr cleaned"
    and "zone_stage iter m
           (if ''ACTO'' \<in> set (columns cleaned) then drop_column ''ACTO'' cleaned else cleaned)
          = Inr final"
    and "c \<notin> {''CONVOCATORIA'', ''PARTIDO'', ''ACTO'', ''ZONA''}"
  shows "column_values c final =
           map (\<lambda>r. r c) (filter (\<lambda>r. r ''DEPTO'' = Some (PyStr d)) (rows combined))
      \<and> (c \<in> set (columns final) \<longleftrightarrow> c \<in> set (columns combined))"
proof -
  let ?no_acto = "if ''ACTO'' \<in> set (columns cleaned) then drop_column ''ACTO'' cleaned else cleaned"
  from assms(4) have c: "c \<noteq> ''CONVOCATORIA''" "c \<noteq> ''PARTIDO''" "c \<noteq> ''ACTO''" "c \<noteq> ''ZONA''"
    by auto
  note f = filter_department_Inr [OF assms(1)]
  note cl = clean_stage_other [OF assms(2) c(1,2)]
  have na: "column_values c ?no_acto = column_values c cleaned
      \<and> (c \<in> set (columns ?no_acto) \<longleftrightarrow> c \<in> set (columns cleaned))"
    using drop_column_other [OF c(3)] by simp
  note z = zone_stage_other [OF assms(3) c(4)]
  from f have "column_values c filtered =
      map (\<lambda>r. r c) (filter (\<lambda>r. r ''DEPTO'' = Some (PyStr d)) (rows combined))"
    by (simp add: column_values_def)
  with cl na z f show ?thesis by simp
qed

text \<open>
  Claim C8. In a run that loads a table and returns, the last file written is the final
  file, and for every field other than \<open>CONVOCATORIA\<close>, \<open>PARTIDO\<close>, \<open>ACTO\<close> and \<open>ZONA\<close>
  the values down its rows are the values that the rows kept by the department filter
  had in the loaded table, row by row; such a field is a column of the final file
  exactly when it was a column of the loaded table. The final file has the column
  \<open>ZONA\<close>, computed from that row's \<open>SERIES\<close> value and the mapping alone.
\<close>

theorem process_odd_data_passes_through:
  assumes "load_odd_data w folder = (Inr (Some combined), out)"
    and "outcome (process_odd_data w d folder od md fd) = Returned"
  shows "\<exists>final rest m.
      written (process_odd_data w d folder od md fd) = rest @ [(final_path fd d, final)]
      \<and> load_json w (mapping_path md d) = Inr m
      \<and> (\<forall>c. c \<notin> {''CONVOCATORIA'', ''PARTIDO'', ''ACTO'', ''ZONA''} \<longrightarrow>
            column_values c final =
              map (\<lambda>r. r c) (filter (\<lambda>r. r ''DEPTO'' = Some (PyStr d)) (rows combined))
            \<and> (c \<in> set (columns final) \<longleftrightarrow> c \<in> set (columns combined)))
      \<and> ''ZONA'' \<in> set (columns final)
      \<and> column_values ''ZONA'' final =
          map (\<lambda>r. Some (PyStr (get_zone (iterate_set w) (cell_of r ''SERIES'') m)))
            (filter (\<lambda>r. r ''DEPTO'' = Some (PyStr d)) (rows combined))"
proof -
  let ?kept = "filter (\<lambda>r. r ''DEPTO'' = Some (PyStr d)) (rows combined)"
  from returned_run [OF assms] obtain filtered cleaned m final rest
    where f: "filter_department combined d = Inr filtered"
      and c: "clean_stage filtered = Inr cleaned"
      and m: "load_json w (mapping_path md d) = Inr m"
      and z: "zone_stage (iterate_set w) m
           (if ''ACTO'' \<in> set (columns cleaned) then drop_column ''ACTO'' cleaned else cleaned)
          = Inr final"
      and w: "written (process_odd_data w d folder od md fd) = rest @ [(final_path fd d, final)]"
    by blast
  let ?no_acto = "if ''ACTO'' \<in> set (columns cleaned) then drop_column ''ACTO'' cleaned else cleaned"
  note other = passes_through [OF f c z]
  have "column_values ''SERIES'' ?no_acto = column_values ''SERIES'' cleaned"
    using drop_column_other [of "''SERIES''" "''ACTO''" cleaned] by simp
  also have "\<dots> = column_values ''SERIES'' filtered"
    using clean_stage_other [OF c, of "''SERIES''"] by simp
  also have "\<dots> = map (\<lambda>r. r ''SERIES'') ?kept"
    using filter_department_Inr [OF f] by (simp add: column_values_def)
  finally have s: "column_values ''SERIES'' ?no_acto = map (\<lambda>r. r ''SERIES'') ?kept" .
  from zone_stage_zone [OF z] have zc: "''ZONA'' \<in> set (columns final)"
    and "column_values ''ZONA'' final =
          map (\<lambda>s. Some (PyStr (get_zone (iterate_set w)
                 (case s of None \<Rightarrow> PyNaN | Some v \<Rightarrow> v) m)))
            (column_values ''SERIES'' ?no_acto)"
    by blast+
  then have zv: "column_values ''ZONA'' final =
          map (\<lambda>r. Some (PyStr (get_zone (iterate_set w) (cell_of r ''SERIES'') m))) ?kept"
    unfolding s by (simp add: cell_of_def comp_def)
  from w m other zc zv show ?thesis by blast
qed

lemma example_kept_Canelones:
  "filter (\<lambda>r. r ''DEPTO'' = Some (PyStr ''Canelones'')) (rows sheet_a @ rows sheet_c)
     = [sheet_row ''Frente_Amplio_-_Lista_711'' ''Canelones'' ''CAA CAB'' 7,
        sheet_row ''Asamblea_Popular'' ''Canelones'' ''CAA ZZZ'' 1]"
  by (simp add: sheet_a_def sheet_c_def sheet_row_def)

lemma example_clean_Canelones:
  "\<exists>cleaned. clean_stage \<lparr>columns = sheet_columns,
        rows = [sheet_row ''Frente_Amplio_-_Lista_711'' ''Canelones'' ''CAA CAB'' 7,
                sheet_row ''Asamblea_Popular'' ''Canelones'' ''CAA ZZZ'' 1]\<rparr> = Inr cleaned
     \<and> columns cleaned = [''ACTO'', ''PARTIDO'', ''DEPTO'', ''CIRCUITO'', ''SERIES'', ''ESCRUTINIO'',
         ''HOJA'', ''CNT_VOTOS'']
     \<and> column_values ''PARTIDO'' cleaned
         = [Some (PyStr ''Frente Amplio''), Some (PyStr ''Asamblea Popular'')]"
  by (simp add: clean_stage_def rename_column_def sheet_columns_def sheet_row_def cell_of_def
      clean_party_name_def py_split_def py_first_def column_values_def)

lemma example_outcome_Canelones:
  "outcome (process_odd_data example_world ''Canelones'' ''raw'' ''out'' ''maps'' ''final'')
     = Returned"
proof -
  obtain cleaned where c: "clean_stage \<lparr>columns = sheet_columns,
        rows = [sheet_row ''Frente_Amplio_-_Lista_711'' ''Canelones'' ''CAA CAB'' 7,
                sheet_row ''Asamblea_Popular'' ''Canelones'' ''CAA ZZZ'' 1]\<rparr> = Inr cleaned"
    and cc: "columns cleaned = [''ACTO'', ''PARTIDO'', ''DEPTO'', ''CIRCUITO'', ''SERIES'',
        ''ESCRUTINIO'', ''HOJA'', ''CNT_VOTOS'']"
    using example_clean_Canelones by blast
  have f: "filter_department \<lparr>columns = sheet_columns, rows = rows sheet_a @ rows sheet_c\<rparr>
      ''Canelones'' = Inr \<lparr>columns = sheet_columns,
        rows = [sheet_row ''Frente_Amplio_-_Lista_711'' ''Canelones'' ''CAA CAB'' 7,
                sheet_row ''Asamblea_Popular'' ''Canelones'' ''CAA ZZZ'' 1]\<rparr>"
    by (simp add: filter_department_def example_kept_Canelones sheet_columns_def
        del: filter_append)
  have m: "load_json example_world (mapping_path ''maps'' ''Canelones'')
      = Inr [''CAA'' \<mapsto> ''Canelones'', ''CAB'' \<mapsto> ''Canelones'']"
    by (simp add: example_world_def mapping_path_def py_lower_Canelones)
  show ?thesis
    by (simp add: process_odd_data_def Let_def example_load f c m cc zone_stage_def
        drop_column_def)
qed

theorem process_odd_data_passes_through_witness:
  "load_odd_data example_world ''raw'' =
     (Inr (Some \<lparr>columns = sheet_columns, rows = rows sheet_a @ rows sheet_c\<rparr>),
      [Error_reading ''b.xlsx'' ''File is not a zip file''])
   \<and> outcome (process_odd_data example_world ''Canelones'' ''raw'' ''out'' ''maps'' ''final'')
       = Returned
   \<and> (\<exists>final rest.
         written (process_odd_data example_world ''Canelones'' ''raw'' ''out'' ''maps'' ''final'')
           = rest @ [((''final'', ''canelones_odd_final.csv''), final)]
         \<and> column_values ''DEPTO'' final = [Some (PyStr ''Canelones''), Some (PyStr ''Canelones'')]
         \<and> column_values ''SERIES'' final = [Some (PyStr ''CAA CAB''), Some (PyStr ''CAA ZZZ'')]
         \<and> column_values ''CNT_VOTOS'' final = [Some (PyInt 7), Some (PyInt 1)]
         \<and> column_values ''ZONA'' final
             = [Some (PyStr ''Canelones''), Some (PyStr ''Canelones Unknown'')])"
proof -
  let ?run = "process_odd_data example_world ''Canelones'' ''raw'' ''out'' ''maps'' ''final''"
  let ?kept = "[sheet_row ''Frente_Amplio_-_Lista_711'' ''Canelones'' ''CAA CAB'' 7,
                sheet_row ''Asamblea_Popular'' ''Canelones'' ''CAA ZZZ'' 1]"
  have mj: "load_json example_world (mapping_path ''maps'' ''Canelones'')
      = Inr [''CAA'' \<mapsto> ''Canelones'', ''CAB'' \<mapsto> ''Canelones'']"
    by (simp add: example_world_def mapping_path_def py_lower_Canelones)
  have it: "iterate_set example_world = remdups"
    by (simp add: example_world_def)
  note t = process_odd_data_passes_through [OF example_load example_outcome_Canelones,
      unfolded it table.simps example_kept_Canelones]
  from t obtain final rest m where all:
    "written ?run = rest @ [(final_path ''final'' ''Canelones'', final)]
      \<and> load_json example_world (mapping_path ''maps'' ''Canelones'') = Inr m
      \<and> (\<forall>c. c \<notin> {''CONVOCATORIA'', ''PARTIDO'', ''ACTO'', ''ZONA''} \<longrightarrow>
            column_values c final = map (\<lambda>r. r c) ?kept
            \<and> (c \<in> set (columns final) \<longleftrightarrow> c \<in> set sheet_columns))
      \<and> ''ZONA'' \<in> set (columns final)
      \<and> column_values ''ZONA'' final =
          map (\<lambda>r. Some (PyStr (get_zone remdups (cell_of r ''SERIES'') m))) ?kept"
    by (elim exE)
  from all have w: "written ?run = rest @ [(final_path ''final'' ''Canelones'', final)]"
    by (rule conjunct1)
  from all have m: "load_json example_world (mapping_path ''maps'' ''Canelones'') = Inr m"
    by (elim conjE)
  from all have oth: "\<forall>c. c \<notin> {''CONVOCATORIA'', ''PARTIDO'', ''ACTO'', ''ZONA''} \<longrightarrow>
            column_values c final = map (\<lambda>r. r c) ?kept
            \<and> (c \<in> set (columns final) \<longleftrightarrow> c \<in> set sheet_columns)"
    by (elim conjE)
  have other: "column_values c final = map (\<lambda>r. r c) ?kept"
    if "c \<notin> {''CONVOCATORIA'', ''PARTIDO'', ''ACTO'', ''ZONA''}" for c
    using oth that by (elim allE [of _ c] impE conjE) 
  from all have zone: "column_values ''ZONA'' final =
        map (\<lambda>r. Some (PyStr (get_zone remdups (cell_of r ''SERIES'') m))) ?kept"
    by (elim conjE)
  from m mj have m_eq: "m = [''CAA'' \<mapsto> ''Canelones'', ''CAB'' \<mapsto> ''Canelones'']"
    by simp
  have w': "written ?run = rest @ [((''final'', ''canelones_odd_final.csv''), final)]"
    using w by (simp add: final_path_def py_lower_Canelones)
  have d: "column_values ''DEPTO'' final = [Some (PyStr ''Canelones''), Some (PyStr ''Canelones'')]"
    using other [of "''DEPTO''"] by (simp add: sheet_row_def)
  have s: "column_values ''SERIES'' final = [Some (PyStr ''CAA CAB''), Some (PyStr ''CAA ZZZ'')]"
    using other [of "''SERIES''"] by (simp add: sheet_row_def)
  have v: "column_values ''CNT_VOTOS'' final = [Some (PyInt 7), Some (PyInt 1)]"
    using other [of "''CNT_VOTOS''"] by (simp add: sheet_row_def)
  have z: "column_values ''ZONA'' final
      = [Some (PyStr ''Canelones''), Some (PyStr ''Canelones Unknown'')]"
    unfolding zone m_eq
    by (simp add: sheet_row_def cell_of_def get_zone_def py_str_def py_split_ws_def
        is_space_def whitespace_def dict_get_def)
  from w' d s v z have "\<exists>final rest.
         written ?run = rest @ [((''final'', ''canelones_odd_final.csv''), final)]
         \<and> column_values ''DEPTO'' final = [Some (PyStr ''Canelones''), Some (PyStr ''Canelones'')]
         \<and> column_values ''SERIES'' final = [Some (PyStr ''CAA CAB''), Some (PyStr ''CAA ZZZ'')]
         \<and> column_values ''CNT_VOTOS'' final = [Some (PyInt 7), Some (PyInt 1)]
         \<and> column_values ''ZONA'' final
             = [Some (PyStr ''Canelones''), Some (PyStr ''Canelones Unknown'')]"
    by blast
  with example_load example_outcome_Canelones show ?thesis by blast
qed

end
